theory Spec2Isabelle
  imports Main "HOL-Library.AList"
begin

section \<open>Plan documents\<close>

text \<open>
  A plan file is read with \<^verbatim>\<open>JSON.parse\<close>, so every value of the plan is a JSON value.
  The type parameter \<open>'n\<close> is the type of parsed numbers; the code only ever compares
  them with \<^verbatim>\<open>===\<close>, which on numbers is equality of values. An object keeps its
  properties in order, as a list of pairs read by \<^const>\<open>map_of\<close>. Property reads
  are reads of own properties: the names that every object inherits (such as
  \<^verbatim>\<open>constructor\<close>) are not attribute names of a plan.
\<close>

datatype 'n json =
    JNull
  | JBool bool
  | JNumber 'n
  | JString string
  | JArray "'n json list"
  | JObject "(string \<times> 'n json) list"

type_synonym 'n json_object = "(string \<times> 'n json) list"

text \<open>
  \<^verbatim>\<open>x === y\<close> for two property reads \<^verbatim>\<open>beforeChanges[k]\<close> and
  \<^verbatim>\<open>afterChanges[k]\<close>; \<open>None\<close> is \<^verbatim>\<open>undefined\<close>, the value of a read of a
  missing property. Null, booleans, numbers and strings are compared by value. Arrays
  and objects are compared by reference, and the two operands come from two different
  places of the parsed plan (or from a fresh \<^verbatim>\<open>{}\<close>), so they are never the same
  reference: the comparison is false whatever they hold.
\<close>

fun strict_equals :: "'n json option \<Rightarrow> 'n json option \<Rightarrow> bool" where
  "strict_equals None None = True"
| "strict_equals (Some JNull) (Some JNull) = True"
| "strict_equals (Some (JBool a)) (Some (JBool b)) = (a = b)"
| "strict_equals (Some (JNumber a)) (Some (JNumber b)) = (a = b)"
| "strict_equals (Some (JString a)) (Some (JString b)) = (a = b)"
| "strict_equals _ _ = False"

text \<open>\<^verbatim>\<open>k in obj\<close>, \<^verbatim>\<open>obj[k] = v\<close> and \<^verbatim>\<open>delete obj[k]\<close> on own properties.\<close>

definition has_key :: "string \<Rightarrow> 'n json_object \<Rightarrow> bool" where
  "has_key k obj = (map_of obj k \<noteq> None)"

definition set_key :: "string \<Rightarrow> 'n json \<Rightarrow> 'n json_object \<Rightarrow> 'n json_object" where
  "set_key k v obj = AList.update k v obj"

definition delete_key :: "string \<Rightarrow> 'n json_object \<Rightarrow> 'n json_object" where
  "delete_key k obj = AList.delete k obj"

section \<open>Masking of sensitive attributes\<close>

definition OLD_SENSITIVE_VALUE :: string where
  "OLD_SENSITIVE_VALUE = ''(OLD_SENSITIVE_VALUE)''"

definition NEW_SENSITIVE_VALUE :: string where
  "NEW_SENSITIVE_VALUE = ''(NEW_SENSITIVE_VALUE)''"

text \<open>
  The body of the two \<^verbatim>\<open>for (const sensitiveParamKey in ...)\<close> loops of
  \<^verbatim>\<open>run\<close>: one key, on the pair \<open>(beforeChanges, afterChanges)\<close>.
\<close>

definition mask_sensitive_key ::
  "string \<Rightarrow> 'n json_object \<times> 'n json_object \<Rightarrow> 'n json_object \<times> 'n json_object" where
  "mask_sensitive_key sensitiveParamKey changes =
     (let beforeChanges = fst changes; afterChanges = snd changes in
      if strict_equals (map_of beforeChanges sensitiveParamKey)
           (map_of afterChanges sensitiveParamKey)
      then (delete_key sensitiveParamKey beforeChanges,
            delete_key sensitiveParamKey afterChanges)
      else ((if has_key sensitiveParamKey beforeChanges
             then set_key sensitiveParamKey (JString OLD_SENSITIVE_VALUE) beforeChanges
             else beforeChanges),
            (if has_key sensitiveParamKey afterChanges
             then set_key sensitiveParamKey (JString NEW_SENSITIVE_VALUE) afterChanges
             else afterChanges)))"

text \<open>
  One loop, over the keys of a sensitivity mapping whatever value marks them. The keys are
  taken in the order of the list; what a pass leaves under a key does not depend on the
  other keys.
\<close>

definition mask_sensitive_params ::
  "'n json_object \<Rightarrow> 'n json_object \<times> 'n json_object \<Rightarrow> 'n json_object \<times> 'n json_object" where
  "mask_sensitive_params sensitiveParams changes =
     fold mask_sensitive_key (map fst sensitiveParams) changes"

text \<open>Both loops: first the keys of \<open>before_sensitive\<close>, then those of \<open>after_sensitive\<close>.\<close>

definition mask_sensitive ::
  "'n json_object \<Rightarrow> 'n json_object \<Rightarrow> 'n json_object \<times> 'n json_object
     \<Rightarrow> 'n json_object \<times> 'n json_object" where
  "mask_sensitive beforeSensitiveParams afterSensitiveParams changes =
     mask_sensitive_params afterSensitiveParams
       (mask_sensitive_params beforeSensitiveParams changes)"

text \<open>
  What the masking leaves on each side under a sensitive key, from the two values read
  there before: for the statement of the properties.
\<close>

definition masked_before :: "'n json option \<Rightarrow> 'n json option \<Rightarrow> 'n json option" where
  "masked_before x y =
     (if strict_equals x y then None else map_option (\<lambda>_. JString OLD_SENSITIVE_VALUE) x)"

definition masked_after :: "'n json option \<Rightarrow> 'n json option \<Rightarrow> 'n json option" where
  "masked_after x y =
     (if strict_equals x y then None else map_option (\<lambda>_. JString NEW_SENSITIVE_VALUE) y)"

section \<open>Numbers and lines in text\<close>

text \<open>
  Strings are lists of characters, one for each code unit that the source's
  \<^verbatim>\<open>.length\<close> counts; the characters of the type are the code units below 256. A
  template literal prints a counter or a length in decimal.
\<close>

definition digit_char :: "nat \<Rightarrow> char" where
  "digit_char d = ''0123456789'' ! d"

function string_of_nat :: "nat \<Rightarrow> string" where
  "string_of_nat n =
     (if n < 10 then [digit_char n]
      else string_of_nat (n div 10) @ [digit_char (n mod 10)])"
  by pat_completeness auto
termination
  by (relation "measure id") auto

declare string_of_nat.simps [simp del]

definition LF :: char where
  "LF = CHR 0x0A"

definition CR :: char where
  "CR = CHR 0x0D"

text \<open>
  The line terminators of the source's regular expressions: behind one of them \<^verbatim>\<open>^\<close>
  (with the flag \<^verbatim>\<open>m\<close>) matches, and \<^verbatim>\<open>.\<close> matches none of them. The other two, U+2028
  and U+2029, are code units above 255 and so no characters of this type.
\<close>

definition is_line_terminator :: "char \<Rightarrow> bool" where
  "is_line_terminator c = (c = LF \<or> c = CR)"

definition TAB :: char where
  "TAB = CHR 0x09"

section \<open>The accumulator of a plan\<close>

record resource_change_body =
  Address :: string
  ChangeDif :: string
  Action :: string

record plan_changes =
  CreateResourcesCount :: nat
  UpdateResourcesCount :: nat
  DestroyResourcesCount :: nat
  ReplaceResourcesCount :: nat
  ImportResourcesCount :: nat
  ResouceChangeBody :: "resource_change_body list"

definition initial_plan_changes :: plan_changes where
  "initial_plan_changes =
     \<lparr>CreateResourcesCount = 0, UpdateResourcesCount = 0, DestroyResourcesCount = 0,
      ReplaceResourcesCount = 0, ImportResourcesCount = 0, ResouceChangeBody = []\<rparr>"

section \<open>Resource change records\<close>

text \<open>
  The \<open>change\<close> object of a record. A field that is \<open>None\<close> is missing from the JSON
  (for \<open>before\<close>, \<open>after\<close> and the two sensitivity mappings also: null or false, which
  the source's \<^verbatim>\<open>x ? x : {}\<close> replaces by an empty object just the same).
\<close>

record 'n change_details =
  actions :: "string list option"
  before :: "'n json_object option"
  after :: "'n json_object option"
  before_sensitive :: "'n json_object option"
  after_sensitive :: "'n json_object option"
  importing :: "'n json option"

record 'n resource_change =
  address :: string
  change :: "'n change_details option"

text \<open>\<^verbatim>\<open>x ? x : {}\<close> on such a field.\<close>

definition or_empty :: "'n json_object option \<Rightarrow> 'n json_object" where
  "or_empty x = (case x of None \<Rightarrow> [] | Some obj \<Rightarrow> obj)"

section \<open>Resolving the action of a record\<close>

text \<open>
  The \<^verbatim>\<open>switch (resourceChangeActions[0])\<close> of \<^verbatim>\<open>run\<close> together with the
  \<^verbatim>\<open>if (noChanges) continue\<close> after it. The result \<open>None\<close> is \<^verbatim>\<open>continue\<close>: the record
  is left, the accumulator is as it was. Otherwise the result is \<open>overallAction\<close> and the
  accumulator with its counters incremented. The switch has no default case, and
  \<open>noChanges\<close> starts as true; on an empty array \<^verbatim>\<open>resourceChangeActions[0]\<close> is
  \<^verbatim>\<open>undefined\<close>, which matches no case.
\<close>

definition resolve_action ::
  "string list \<Rightarrow> bool \<Rightarrow> plan_changes \<Rightarrow> (string \<times> plan_changes) option" where
  "resolve_action resourceChangeActions has_importing planChanges =
     (case resourceChangeActions of
        [] \<Rightarrow> None
      | first # _ \<Rightarrow>
          if first = ''no-op'' then
            (if has_importing then
               Some (''Import'',
                 planChanges\<lparr>ImportResourcesCount := ImportResourcesCount planChanges + 1\<rparr>)
             else None)
          else if first = ''create'' then
            Some (''Create'',
              planChanges\<lparr>CreateResourcesCount := CreateResourcesCount planChanges + 1\<rparr>)
          else if first = ''delete'' then
            (if ''delete'' \<in> set resourceChangeActions \<and> ''create'' \<in> set resourceChangeActions
             then
               Some (''Replace'',
                 planChanges\<lparr>CreateResourcesCount := CreateResourcesCount planChanges + 1,
                   DestroyResourcesCount := DestroyResourcesCount planChanges + 1,
                   ReplaceResourcesCount := ReplaceResourcesCount planChanges + 1\<rparr>)
             else
               Some (''Destroy'',
                 planChanges\<lparr>DestroyResourcesCount := DestroyResourcesCount planChanges + 1\<rparr>))
          else if first = ''update'' then
            Some (''Update'',
              planChanges\<lparr>UpdateResourcesCount := UpdateResourcesCount planChanges + 1\<rparr>)
          else None)"

section \<open>Rendering the diff of a record\<close>

text \<open>
  The serializer \<^verbatim>\<open>yaml.stringify\<close> and the patch writer \<^verbatim>\<open>diff.createPatch\<close> are
  packages outside the repository, so they are parameters. The arguments of
  \<open>create_patch\<close> are those of \<^verbatim>\<open>createPatch(fileName, oldStr, newStr, oldHeader,
  newHeader)\<close>; a header that is \<open>None\<close> is \<^verbatim>\<open>undefined\<close>.
\<close>

record 'n libraries =
  yaml_stringify :: "'n json_object \<Rightarrow> string"
  create_patch :: "string \<Rightarrow> string \<Rightarrow> string \<Rightarrow> string option \<Rightarrow> string option \<Rightarrow> string"

text \<open>The pair \<open>(oldHeader, newHeader)\<close> that the source passes for an action.\<close>

definition patch_headers :: "string \<Rightarrow> string option \<times> string option" where
  "patch_headers overallAction =
     (if overallAction = ''Create'' \<or> overallAction = ''Update'' \<or> overallAction = ''Import''
      then (None, Some overallAction)
      else (Some overallAction, None))"

text \<open>
  \<^verbatim>\<open>changeDiff.replace(/^(?![+-]).*\n?/gm, '')\<close>, scanning from left to right. The flag says
  whether the position is the start of a line: the start of the text, or behind a line
  terminator. There, unless the next character is a plus or a minus, the pattern matches
  the characters up to the next line terminator, and that terminator too when it is a
  line feed; a carriage return is not part of the match and stays. The scan goes on
  behind the match.
\<close>

function remove_unchanged_lines :: "bool \<Rightarrow> string \<Rightarrow> string" where
  "remove_unchanged_lines line_start [] = []"
| "remove_unchanged_lines line_start (c # cs) =
     (if line_start \<and> c \<noteq> CHR ''+'' \<and> c \<noteq> CHR ''-'' then
        (case dropWhile (\<lambda>x. \<not> is_line_terminator x) (c # cs) of
           [] \<Rightarrow> []
         | d # ds \<Rightarrow>
             if d = LF then remove_unchanged_lines True ds
             else d # remove_unchanged_lines True ds)
      else c # remove_unchanged_lines (is_line_terminator c) cs)"
  by pat_completeness auto
termination
proof (relation "measure (\<lambda>(b, s). length s)")
  fix line_start :: bool and c :: char and cs ds :: string and d :: char
  assume "dropWhile (\<lambda>x. \<not> is_line_terminator x) (c # cs) = d # ds"
  then have "length (d # ds) \<le> length (c # cs)"
    by (metis length_dropWhile_le)
  then show "((True, ds), (line_start, c # cs)) \<in> measure (\<lambda>(b, s). length s)"
    "((True, ds), (line_start, c # cs)) \<in> measure (\<lambda>(b, s). length s)"
    by simp_all
qed auto

text \<open>
  \<^verbatim>\<open>changeDiff.replace(/^-{}\n?/gm, '')\<close> and \<^verbatim>\<open>changeDiff.replace(/^\+{}\n?/gm, '')\<close>: at the
  start of a line, the three characters of \<open>marker\<close> and a line feed right behind them,
  if there is one, are removed. The patterns do not ask for the end of the line: behind a
  match that a line feed does not close, the scan is inside the line. The start of a line
  is again the start of the text or the position behind a line terminator.
\<close>

function remove_at_line_start :: "string \<Rightarrow> bool \<Rightarrow> string \<Rightarrow> string" where
  "remove_at_line_start marker line_start [] = []"
| "remove_at_line_start marker line_start (c # cs) =
     (if line_start \<and> marker \<noteq> [] \<and> take (length marker) (c # cs) = marker then
        (case drop (length marker) (c # cs) of
           [] \<Rightarrow> []
         | d # ds \<Rightarrow>
             if d = LF then remove_at_line_start marker True ds
             else remove_at_line_start marker False (d # ds))
      else c # remove_at_line_start marker (is_line_terminator c) cs)"
  by pat_completeness auto
termination
proof (relation "measure (\<lambda>(m, b, s). length s)")
  fix marker :: string and line_start :: bool and c d :: char and cs ds :: string
  assume m: "line_start \<and> marker \<noteq> [] \<and> take (length marker) (c # cs) = marker"
    and d: "drop (length marker) (c # cs) = d # ds"
  from d have "length (d # ds) = length (c # cs) - length marker"
    by (metis length_drop)
  moreover from m have "0 < length marker"
    by simp
  ultimately have less: "length (d # ds) < length (c # cs)"
    by simp
  then show "((marker, True, ds), (marker, line_start, c # cs)) \<in> measure (\<lambda>(m, b, s). length s)"
    by simp
  from less show
    "((marker, False, d # ds), (marker, line_start, c # cs)) \<in> measure (\<lambda>(m, b, s). length s)"
    by simp
qed auto

declare remove_unchanged_lines.simps [simp del]
declare remove_at_line_start.simps [simp del]

text \<open>The three replacements, in the source's order.\<close>

definition sanitize_diff :: "string \<Rightarrow> string" where
  "sanitize_diff changeDiff =
     remove_at_line_start ''+{}'' True
       (remove_at_line_start ''-{}'' True
          (remove_unchanged_lines True changeDiff))"

text \<open>The template literal that puts the heading before the diff.\<close>

definition separator_line :: string where
  "separator_line =
     ''===================================================================''"

definition add_diff_heading :: "string \<Rightarrow> string \<Rightarrow> string" where
  "add_diff_heading resourceAddress changeDiff =
     [LF] @ ''Resource: '' @ resourceAddress @ [LF] @ separator_line @ [LF] @ changeDiff @ [LF]"

definition render_change_diff ::
  "'n libraries \<Rightarrow> string \<Rightarrow> 'n json_object \<Rightarrow> 'n json_object \<Rightarrow> string \<Rightarrow> string" where
  "render_change_diff lib resourceAddress beforeChanges afterChanges overallAction =
     (let beforeYaml = yaml_stringify lib beforeChanges;
          afterYaml = yaml_stringify lib afterChanges;
          changeDiff = create_patch lib resourceAddress beforeYaml afterYaml
            (fst (patch_headers overallAction)) (snd (patch_headers overallAction))
      in add_diff_heading resourceAddress (sanitize_diff changeDiff))"

section \<open>One record, and the records of a plan\<close>

text \<open>
  An exception inside the loop over the records. With the typed records of this model
  the only ones left are the type errors of reading a property of \<^verbatim>\<open>undefined\<close>
  (a record without \<open>change\<close>, a change without \<open>actions\<close>) and of iterating a plan
  without \<open>resource_changes\<close>.
\<close>

datatype js_error = TypeError

text \<open>
  One pass of the loop body of \<^verbatim>\<open>for (const resourceChange of resourceChanges)\<close>, in
  the source's order: the fields are read, sensitive attributes are masked, the action is
  resolved, and unless the record is left with \<^verbatim>\<open>continue\<close> its diff is rendered and
  pushed.
\<close>

definition parse_resource_change ::
  "'n libraries \<Rightarrow> plan_changes \<Rightarrow> 'n resource_change \<Rightarrow> js_error + plan_changes" where
  "parse_resource_change lib planChanges resourceChange =
     (case change resourceChange of
        None \<Rightarrow> Inl TypeError
      | Some resourceChangeDetails \<Rightarrow>
          (let resourceAddress = address resourceChange;
               changes = mask_sensitive
                 (or_empty (before_sensitive resourceChangeDetails))
                 (or_empty (after_sensitive resourceChangeDetails))
                 (or_empty (before resourceChangeDetails), or_empty (after resourceChangeDetails))
           in case actions resourceChangeDetails of
                None \<Rightarrow> Inl TypeError
              | Some resourceChangeActions \<Rightarrow>
                  (case resolve_action resourceChangeActions
                          (importing resourceChangeDetails \<noteq> None) planChanges of
                     None \<Rightarrow> Inr planChanges
                   | Some (overallAction, counted) \<Rightarrow>
                       Inr (counted\<lparr>ResouceChangeBody := ResouceChangeBody counted @
                         [\<lparr>Address = resourceAddress,
                           ChangeDif = render_change_diff lib resourceAddress
                             (fst changes) (snd changes) overallAction,
                           Action = overallAction\<rparr>]\<rparr>))))"

text \<open>The loop: the first exception ends it.\<close>

fun parse_resource_changes ::
  "'n libraries \<Rightarrow> plan_changes \<Rightarrow> 'n resource_change list \<Rightarrow> js_error + plan_changes" where
  "parse_resource_changes lib planChanges [] = Inr planChanges"
| "parse_resource_changes lib planChanges (resourceChange # rest) =
     (case parse_resource_change lib planChanges resourceChange of
        Inl e \<Rightarrow> Inl e
      | Inr planChanges' \<Rightarrow> parse_resource_changes lib planChanges' rest)"

section \<open>The comment of a plan\<close>

text \<open>
  The inputs of the action that the comment depends on, and the constant
  \<open>COMMENT_FOOTER\<close>, whose declaration is not among the sources at hand: it is a
  parameter.
\<close>

record action_inputs =
  commentHeader :: string
  headingPlanVariableName :: string
  expandComment :: bool
  COMMENT_FOOTER :: string

definition MAX_GITHUB_COMMENT_BODY_SIZE :: nat where
  "MAX_GITHUB_COMMENT_BODY_SIZE = 65536"

text \<open>
  A parsed plan file: its path, its variables (the \<open>value\<close> of each as a template literal
  prints it), and its resource changes, \<open>None\<close> when the plan has none to iterate. The
  variables are read as own properties, like the attributes.
\<close>

record 'n plan_file =
  tfPlan :: string
  variables :: "(string \<times> string) list option"
  resource_changes :: "'n resource_change list option"

definition resolve_comment_header :: "action_inputs \<Rightarrow> 'n plan_file \<Rightarrow> string" where
  "resolve_comment_header inputs parsedContent =
     (if headingPlanVariableName inputs \<noteq> [] then
        (case variables parsedContent of
           None \<Rightarrow> commentHeader inputs
         | Some vars \<Rightarrow>
             (case map_of vars (headingPlanVariableName inputs) of
                None \<Rightarrow> commentHeader inputs
              | Some v \<Rightarrow> v))
      else commentHeader inputs)"

text \<open>The five texts that the loop over \<open>ResouceChangeBody\<close> appends to.\<close>

record section_contents =
  resourcesToCreateContent :: string
  resourcesToDestroyContent :: string
  resourcesToUpdateContent :: string
  resourcesToReplaceContent :: string
  resourcesToImportContent :: string

definition section_heading :: "string \<Rightarrow> string" where
  "section_heading what = [LF] @ ''#### Resources to '' @ what @ '':'' @ [LF, LF]"

definition initial_section_contents :: section_contents where
  "initial_section_contents =
     \<lparr>resourcesToCreateContent = section_heading ''create'',
      resourcesToDestroyContent = section_heading ''destroy'',
      resourcesToUpdateContent = section_heading ''update'',
      resourcesToReplaceContent = section_heading ''replace'',
      resourcesToImportContent = section_heading ''import''\<rparr>"

definition diff_block :: "resource_change_body \<Rightarrow> string" where
  "diff_block resourceChangeBody =
     [LF] @ ''```diff'' @ ChangeDif resourceChangeBody @ ''```'' @ [LF, LF]"

definition add_to_section :: "resource_change_body \<Rightarrow> section_contents \<Rightarrow> section_contents" where
  "add_to_section resourceChangeBody contents =
     (if Action resourceChangeBody = ''Import'' then
        contents\<lparr>resourcesToImportContent :=
          resourcesToImportContent contents @ diff_block resourceChangeBody\<rparr>
      else if Action resourceChangeBody = ''Create'' then
        contents\<lparr>resourcesToCreateContent :=
          resourcesToCreateContent contents @ diff_block resourceChangeBody\<rparr>
      else if Action resourceChangeBody = ''Update'' then
        contents\<lparr>resourcesToUpdateContent :=
          resourcesToUpdateContent contents @ diff_block resourceChangeBody\<rparr>
      else if Action resourceChangeBody = ''Destroy'' then
        contents\<lparr>resourcesToDestroyContent :=
          resourcesToDestroyContent contents @ diff_block resourceChangeBody\<rparr>
      else if Action resourceChangeBody = ''Replace'' then
        contents\<lparr>resourcesToReplaceContent :=
          resourcesToReplaceContent contents @ diff_block resourceChangeBody\<rparr>
      else contents)"

definition fill_sections :: "resource_change_body list \<Rightarrow> section_contents" where
  "fill_sections bodies = fold add_to_section bodies initial_section_contents"

text \<open>
  The five \<^verbatim>\<open>${... ? content : ''}\<close> slots of the comment's template literal, in the
  template's order.
\<close>

definition create_slot :: "plan_changes \<Rightarrow> section_contents \<Rightarrow> string" where
  "create_slot planChanges contents =
     (if CreateResourcesCount planChanges > ReplaceResourcesCount planChanges
      then resourcesToCreateContent contents else [])"

definition destroy_slot :: "plan_changes \<Rightarrow> section_contents \<Rightarrow> string" where
  "destroy_slot planChanges contents =
     (if DestroyResourcesCount planChanges > ReplaceResourcesCount planChanges
      then resourcesToDestroyContent contents else [])"

definition update_slot :: "plan_changes \<Rightarrow> section_contents \<Rightarrow> string" where
  "update_slot planChanges contents =
     (if UpdateResourcesCount planChanges > 0 then resourcesToUpdateContent contents else [])"

definition replace_slot :: "plan_changes \<Rightarrow> section_contents \<Rightarrow> string" where
  "replace_slot planChanges contents =
     (if ReplaceResourcesCount planChanges > 0 then resourcesToReplaceContent contents else [])"

definition import_slot :: "plan_changes \<Rightarrow> section_contents \<Rightarrow> string" where
  "import_slot planChanges contents =
     (if ImportResourcesCount planChanges > 0 then resourcesToImportContent contents else [])"

definition badge :: "string \<Rightarrow> nat \<Rightarrow> string \<Rightarrow> string" where
  "badge label n colour =
     ''!['' @ label @ ''](https://img.shields.io/badge/'' @ label @ ''-'' @ string_of_nat n
       @ ''-'' @ colour @ '')''"

definition badges :: "plan_changes \<Rightarrow> string" where
  "badges planChanges =
     badge ''Create'' (CreateResourcesCount planChanges) ''brightgreen'' @ '' '' @
     badge ''Update'' (UpdateResourcesCount planChanges) ''yellow'' @ '' '' @
     badge ''Replace'' (ReplaceResourcesCount planChanges) ''orange'' @ '' '' @
     badge ''Destroy'' (DestroyResourcesCount planChanges) ''red'' @ '' '' @
     badge ''Import'' (ImportResourcesCount planChanges) ''blue''"

definition comment_head :: "action_inputs \<Rightarrow> string \<Rightarrow> plan_changes \<Rightarrow> string" where
  "comment_head inputs resolvedCommentHeader planChanges =
     [LF] @ ''<b>'' @ resolvedCommentHeader @ ''<b>'' @ [LF, LF] @
     badges planChanges @ [LF] @
     ''<details'' @ (if expandComment inputs then '' open'' else []) @ ''>'' @ [LF] @
     ''<summary>'' @ [LF] @
     ''<b>Resource changes:</b>'' @ [LF] @
     ''</summary>'' @ [LF, LF]"

definition comment_tail :: "action_inputs \<Rightarrow> string" where
  "comment_tail inputs = ''</details>'' @ [LF, LF] @ COMMENT_FOOTER inputs @ [LF]"

definition comment_body :: "action_inputs \<Rightarrow> string \<Rightarrow> plan_changes \<Rightarrow> string" where
  "comment_body inputs resolvedCommentHeader planChanges =
     (let contents = fill_sections (ResouceChangeBody planChanges) in
      comment_head inputs resolvedCommentHeader planChanges @
      create_slot planChanges contents @ [LF] @
      destroy_slot planChanges contents @ [LF] @
      update_slot planChanges contents @ [LF] @
      replace_slot planChanges contents @ [LF] @
      import_slot planChanges contents @ [LF] @
      comment_tail inputs)"

section \<open>The run over the plans\<close>

text \<open>
  What \<^verbatim>\<open>core.setFailed\<close> is called with before the run returns: in the handler of the
  loop over the records, the plan's path and the exception; for a comment that is too
  large, the message.
\<close>

datatype failure =
    InvalidPlan string js_error
  | CommentTooLarge string

definition too_large_message :: "nat \<Rightarrow> string" where
  "too_large_message n =
     ''Comment body size is too large for GitHub comment: '' @ string_of_nat n @ '' > ''
       @ string_of_nat MAX_GITHUB_COMMENT_BODY_SIZE"

text \<open>
  One pass of the loop over the plan files: a failure that ends the run, \<open>Inr None\<close> for
  \<^verbatim>\<open>continue\<close> (nothing is pushed to \<open>planComments\<close>), or the comment that is pushed.
\<close>

definition plan_comment ::
  "action_inputs \<Rightarrow> 'n libraries \<Rightarrow> 'n plan_file \<Rightarrow> failure + string option" where
  "plan_comment inputs lib parsedContent =
     (let resolvedCommentHeader = resolve_comment_header inputs parsedContent in
      case resource_changes parsedContent of
        None \<Rightarrow> Inl (InvalidPlan (tfPlan parsedContent) TypeError)
      | Some resourceChanges \<Rightarrow>
          (case parse_resource_changes lib initial_plan_changes resourceChanges of
             Inl e \<Rightarrow> Inl (InvalidPlan (tfPlan parsedContent) e)
           | Inr planChanges \<Rightarrow>
               if length (ResouceChangeBody planChanges) = 0 then Inr None
               else
                 (let commentBody = comment_body inputs resolvedCommentHeader planChanges in
                  if length commentBody > MAX_GITHUB_COMMENT_BODY_SIZE
                  then Inl (CommentTooLarge (too_large_message (length commentBody)))
                  else Inr (Some commentBody))))"

fun plan_comments ::
  "action_inputs \<Rightarrow> 'n libraries \<Rightarrow> 'n plan_file list \<Rightarrow> string list \<Rightarrow> failure + string list"
  where
  "plan_comments inputs lib [] planComments = Inr planComments"
| "plan_comments inputs lib (parsedContent # rest) planComments =
     (case plan_comment inputs lib parsedContent of
        Inl f \<Rightarrow> Inl f
      | Inr None \<Rightarrow> plan_comments inputs lib rest planComments
      | Inr (Some commentBody) \<Rightarrow>
          plan_comments inputs lib rest (planComments @ [commentBody]))"

text \<open>
  The end of a run: it has failed; or it has returned with nothing to post, before any
  call of the platform; or it has removed the previous comments and posted these, one
  per plan, in order.
\<close>

datatype outcome =
    SetFailed failure
  | NothingToPost
  | Posted "string list"

definition run :: "action_inputs \<Rightarrow> 'n libraries \<Rightarrow> 'n plan_file list \<Rightarrow> outcome" where
  "run inputs lib tfPlans =
     (case plan_comments inputs lib tfPlans [] of
        Inl f \<Rightarrow> SetFailed f
      | Inr planComments \<Rightarrow>
          if length planComments = 0 then NothingToPost else Posted planComments)"

section \<open>A text as its lines\<close>

text \<open>
  The lines of a text, each with the line feed that ends it; only the last line can be
  without one. The properties of the three replacements are stated on these lines.
\<close>

function text_lines :: "string \<Rightarrow> string list" where
  "text_lines [] = []"
| "text_lines (c # cs) =
     (case dropWhile (\<lambda>x. x \<noteq> LF) (c # cs) of
        [] \<Rightarrow> [c # cs]
      | d # ds \<Rightarrow> (takeWhile (\<lambda>x. x \<noteq> LF) (c # cs) @ [d]) # text_lines ds)"
  by pat_completeness auto
termination
proof (relation "measure length")
  fix c d :: char and cs ds :: string
  assume "dropWhile (\<lambda>x. x \<noteq> LF) (c # cs) = d # ds"
  then have "length (d # ds) \<le> length (c # cs)"
    by (metis length_dropWhile_le)
  then show "(ds, c # cs) \<in> measure length"
    by simp
qed auto

declare text_lines.simps [simp del]

text \<open>A line of a diff that adds or removes: its first character is a plus or a minus.\<close>

definition is_change_line :: "string \<Rightarrow> bool" where
  "is_change_line l = (case l of [] \<Rightarrow> False | c # _ \<Rightarrow> c = CHR ''+'' \<or> c = CHR ''-'')"

text \<open>
  What is left of one line when \<open>marker\<close> is removed from its start: nothing when the
  line is the marker alone, the rest of the line when it goes on behind the marker.
\<close>

definition strip_marker :: "string \<Rightarrow> string \<Rightarrow> string" where
  "strip_marker marker l =
     (if take (length marker) l = marker then
        (if drop (length marker) l = [LF] then [] else drop (length marker) l)
      else l)"

text \<open>What the three replacements leave of one line of the patch.\<close>

definition kept_of_line :: "string \<Rightarrow> string" where
  "kept_of_line l =
     (if is_change_line l then strip_marker ''+{}'' (strip_marker ''-{}'' l) else [])"

text \<open>The shape of the lines of a text, for the proofs.\<close>

definition is_line :: "string \<Rightarrow> bool" where
  "is_line l = (l \<noteq> [] \<and> LF \<notin> set (butlast l))"

fun lines_ok :: "string list \<Rightarrow> bool" where
  "lines_ok [] = True"
| "lines_ok [l] = is_line l"
| "lines_ok (l # ls) = (is_line l \<and> last l = LF \<and> lines_ok ls)"

section \<open>A serializer and a patch writer for the examples\<close>

text \<open>
  Stand-ins for the two packages, used where a property is shown at a concrete plan.
  The serializer writes one line for each attribute and \<^verbatim>\<open>{}\<close> for the empty mapping;
  the patch writer writes the four header lines of a patch the way the package does,
  then every old line as removed and every new line as added.
\<close>

definition example_scalar :: "'n json \<Rightarrow> string" where
  "example_scalar v = (case v of JString s \<Rightarrow> s | JNull \<Rightarrow> ''null'' | _ \<Rightarrow> ''...'')"

definition example_yaml :: "'n json_object \<Rightarrow> string" where
  "example_yaml obj =
     (if obj = [] then ''{}'' @ [LF]
      else concat (map (\<lambda>kv. fst kv @ '': '' @ example_scalar (snd kv) @ [LF]) obj))"

definition example_header :: "string option \<Rightarrow> string" where
  "example_header h = (case h of None \<Rightarrow> [] | Some text \<Rightarrow> TAB # text)"

definition example_patch ::
  "string \<Rightarrow> string \<Rightarrow> string \<Rightarrow> string option \<Rightarrow> string option \<Rightarrow> string" where
  "example_patch fileName oldStr newStr oldHeader newHeader =
     ''Index: '' @ fileName @ [LF] @ separator_line @ [LF] @
     ''--- '' @ fileName @ example_header oldHeader @ [LF] @
     ''+++ '' @ fileName @ example_header newHeader @ [LF] @
     ''@@ -1 +1 @@'' @ [LF] @
     concat (map (\<lambda>l. CHR ''-'' # l) (text_lines oldStr)) @
     concat (map (\<lambda>l. CHR ''+'' # l) (text_lines newStr))"

definition example_libraries :: "'n libraries" where
  "example_libraries = \<lparr>yaml_stringify = example_yaml, create_patch = example_patch\<rparr>"

definition example_inputs :: action_inputs where
  "example_inputs =
     \<lparr>commentHeader = ''Terraform plan'', headingPlanVariableName = [],
      expandComment = False, COMMENT_FOOTER = ''<!-- terra-pr-commenter -->''\<rparr>"

text \<open>A record with the given address, actions, attributes and import marker.\<close>

definition example_details ::
  "string list \<Rightarrow> 'n json_object option \<Rightarrow> 'n json_object option \<Rightarrow> 'n json option
     \<Rightarrow> 'n change_details" where
  "example_details acts b a imp =
     \<lparr>actions = Some acts, before = b, after = a, before_sensitive = None,
      after_sensitive = None, importing = imp\<rparr>"

definition example_record ::
  "string \<Rightarrow> string list \<Rightarrow> 'n json_object option \<Rightarrow> 'n json_object option \<Rightarrow> 'n json option
     \<Rightarrow> 'n resource_change" where
  "example_record addr acts b a imp =
     \<lparr>address = addr, change = Some (example_details acts b a imp)\<rparr>"

definition acl_private :: "int json_object" where
  "acl_private = [(''acl'', JString ''private'')]"

definition acl_public :: "int json_object" where
  "acl_public = [(''acl'', JString ''public'')]"

definition example_plan :: "int resource_change list \<Rightarrow> int plan_file" where
  "example_plan records =
     \<lparr>tfPlan = ''tfplan.json'', variables = None, resource_changes = Some records\<rparr>"

text \<open>A heading of 65536 characters, and a record that is a true no-op, for the examples.\<close>

definition long_header :: string where
  "long_header = replicate 65536 (CHR ''x'')"

definition is_true_no_op :: "'n resource_change \<Rightarrow> bool" where
  "is_true_no_op resourceChange =
     (case change resourceChange of
        None \<Rightarrow> False
      | Some details \<Rightarrow>
          (case actions details of
             None \<Rightarrow> False
           | Some acts \<Rightarrow>
               (case acts of [] \<Rightarrow> False | first # _ \<Rightarrow> first = ''no-op'')
               \<and> importing details = None))"

section \<open>Properties of the masking\<close>

lemma map_of_set_key: "map_of (set_key k v obj) = (map_of obj)(k \<mapsto> v)"
  by (simp add: set_key_def update_conv')

lemma map_of_delete_key: "map_of (delete_key k obj) = (map_of obj)(k := None)"
  by (simp add: delete_key_def delete_conv')

lemma mask_sensitive_nothing: "mask_sensitive [] [] changes = changes"
  by (simp add: mask_sensitive_def mask_sensitive_params_def)

lemmas example_record_defs = example_record_def example_details_def or_empty_def
  acl_private_def acl_public_def

text \<open>
  What one pass of a loop leaves under each key, on either side: under the key of the pass
  nothing when the two reads are strictly equal, else the placeholder of the side where
  the key is present; under every other key what was there.
\<close>

lemma mask_sensitive_key_before:
  "map_of (fst (mask_sensitive_key k (b, a))) k' =
     (if k' = k then
        (if strict_equals (map_of b k) (map_of a k) then None
         else map_option (\<lambda>_. JString OLD_SENSITIVE_VALUE) (map_of b k))
      else map_of b k')"
  by (auto simp: mask_sensitive_key_def Let_def map_of_set_key map_of_delete_key has_key_def)

lemma mask_sensitive_key_after:
  "map_of (snd (mask_sensitive_key k (b, a))) k' =
     (if k' = k then
        (if strict_equals (map_of b k) (map_of a k) then None
         else map_option (\<lambda>_. JString NEW_SENSITIVE_VALUE) (map_of a k))
      else map_of a k')"
  by (auto simp: mask_sensitive_key_def Let_def map_of_set_key map_of_delete_key has_key_def)

lemma placeholders_differ: "OLD_SENSITIVE_VALUE \<noteq> NEW_SENSITIVE_VALUE"
  by (simp add: OLD_SENSITIVE_VALUE_def NEW_SENSITIVE_VALUE_def)

lemma masked_again:
  "masked_before (masked_before x y) (masked_after x y) = masked_before x y"
  "masked_after (masked_before x y) (masked_after x y) = masked_after x y"
  by (cases x; cases y; simp add: masked_before_def masked_after_def placeholders_differ)+

text \<open>A pass over a list of keys; a key that comes twice is masked as if it came once.\<close>

lemma mask_sensitive_keys_lookup:
  "map_of (fst (fold mask_sensitive_key ks (b, a))) k =
     (if k \<in> set ks then masked_before (map_of b k) (map_of a k) else map_of b k) \<and>
   map_of (snd (fold mask_sensitive_key ks (b, a))) k =
     (if k \<in> set ks then masked_after (map_of b k) (map_of a k) else map_of a k)"
proof (induction ks arbitrary: b a)
  case Nil
  show ?case by simp
next
  case (Cons x ks)
  obtain b1 a1 where step: "mask_sensitive_key x (b, a) = (b1, a1)"
    by (cases "mask_sensitive_key x (b, a)")
  have b1: "map_of b1 k = (if k = x then masked_before (map_of b x) (map_of a x) else map_of b k)"
    using mask_sensitive_key_before [of x b a k] step by (simp add: masked_before_def)
  have a1: "map_of a1 k = (if k = x then masked_after (map_of b x) (map_of a x) else map_of a k)"
    using mask_sensitive_key_after [of x b a k] step by (simp add: masked_after_def)
  show ?case
  proof (cases "k = x")
    case True
    with b1 a1 have "map_of b1 x = masked_before (map_of b x) (map_of a x)"
      and "map_of a1 x = masked_after (map_of b x) (map_of a x)"
      by simp_all
    with True show ?thesis
      using Cons.IH [of b1 a1] by (simp add: step masked_again)
  next
    case False
    with b1 a1 show ?thesis
      using Cons.IH [of b1 a1] by (simp add: step)
  qed
qed

text \<open>
  Both loops together. For every key of \<open>before_sensitive\<close> or \<open>after_sensitive\<close>: when
  the two values are strictly equal (both missing counts), the key is on neither side
  afterwards; else, on each side where it was present, it holds that side's placeholder.
  A key of neither mapping keeps its values.
\<close>

lemma mask_sensitive_lookup:
  assumes "mask_sensitive bs as (b, a) = (b', a')"
  shows "map_of b' k =
           (if k \<in> fst ` set bs \<union> fst ` set as then masked_before (map_of b k) (map_of a k)
            else map_of b k)"
    and "map_of a' k =
           (if k \<in> fst ` set bs \<union> fst ` set as then masked_after (map_of b k) (map_of a k)
            else map_of a k)"
proof -
  obtain b1 a1 where first: "fold mask_sensitive_key (map fst bs) (b, a) = (b1, a1)"
    by (cases "fold mask_sensitive_key (map fst bs) (b, a)")
  have one:
    "map_of b1 k =
       (if k \<in> fst ` set bs then masked_before (map_of b k) (map_of a k) else map_of b k)"
    "map_of a1 k =
       (if k \<in> fst ` set bs then masked_after (map_of b k) (map_of a k) else map_of a k)"
    using mask_sensitive_keys_lookup [of "map fst bs" b a k] first by simp_all
  have two:
    "map_of b' k =
       (if k \<in> fst ` set as then masked_before (map_of b1 k) (map_of a1 k) else map_of b1 k)"
    "map_of a' k =
       (if k \<in> fst ` set as then masked_after (map_of b1 k) (map_of a1 k) else map_of a1 k)"
    using mask_sensitive_keys_lookup [of "map fst as" b1 a1 k] first assms
    by (simp_all add: mask_sensitive_def mask_sensitive_params_def)
  show "map_of b' k =
           (if k \<in> fst ` set bs \<union> fst ` set as then masked_before (map_of b k) (map_of a k)
            else map_of b k)"
    by (simp add: one two masked_again)
  show "map_of a' k =
           (if k \<in> fst ` set bs \<union> fst ` set as then masked_after (map_of b k) (map_of a k)
            else map_of a k)"
    by (simp add: one two masked_again)
qed

text \<open>
  Claim C1: for every key marked in \<open>before_sensitive\<close> or \<open>after_sensitive\<close>, when the
  before-value equals the after-value the key is absent from both sanitized mappings, and
  otherwise it holds only the placeholder of its side. The code compares with
  \<^verbatim>\<open>===\<close>, under which two lists (or two mappings) are never equal: a sensitive
  attribute whose value is a list, the same before and after, is not removed but masked
  on both sides, and the diff then shows a change of a value that did not change. The
  comment in the source says what the claim says: a sensitive field without a change is
  removed. This theorem evaluates the code at a record with two sensitive attributes,
  both unchanged: the password, a string, is removed; the tokens, a list, are masked.
\<close>

theorem unchanged_sensitive_list_is_masked:
  "mask_sensitive [(''password'', JBool True), (''tokens'', JBool True)] []
     ([(''password'', JString ''hunter2''), (''tokens'', JArray [JString ''s3cr3t''])],
      [(''password'', JString ''hunter2''), (''tokens'', JArray [JString ''s3cr3t''])])
   = ([(''tokens'', JString ''(OLD_SENSITIVE_VALUE)'')],
      [(''tokens'', JString ''(NEW_SENSITIVE_VALUE)'')])"
  by (simp add: mask_sensitive_def mask_sensitive_params_def mask_sensitive_key_def
      has_key_def set_key_def delete_key_def OLD_SENSITIVE_VALUE_def NEW_SENSITIVE_VALUE_def)

section \<open>Properties of the classification\<close>

text \<open>
  Claim C2: every record whose actions contain both "create" and "delete" is a Replace,
  and the Create, Destroy and Replace counters each go up by one. The code looks for the
  pair only under a first action "delete". A replacement that creates before it
  destroys has the actions "create", "delete": the switch takes the case "create", and
  the record is counted and shown as a creation. This theorem evaluates the code there.
\<close>

theorem create_before_destroy_is_counted_as_create:
  "resolve_action [''create'', ''delete''] has_importing planChanges =
     Some (''Create'',
       planChanges\<lparr>CreateResourcesCount := CreateResourcesCount planChanges + 1\<rparr>)"
  by (simp add: resolve_action_def)

text \<open>The order that the code does recognise: a first action "delete", and a "create".\<close>

lemma delete_then_create_is_replace:
  assumes "''create'' \<in> set rest"
  shows "resolve_action (''delete'' # rest) has_importing planChanges =
     Some (''Replace'',
       planChanges\<lparr>CreateResourcesCount := CreateResourcesCount planChanges + 1,
         DestroyResourcesCount := DestroyResourcesCount planChanges + 1,
         ReplaceResourcesCount := ReplaceResourcesCount planChanges + 1\<rparr>)"
  using assms by (simp add: resolve_action_def)

text \<open>
  Claim C3: a record whose first action is "no-op". With an importing marker its
  category is Import, the Import counter alone goes up by one, and one Resolved Change
  is appended; without the marker the accumulator is unchanged: no Resolved Change, no
  counter.
\<close>

theorem no_op_is_import_or_dropped:
  assumes "change resourceChange = Some details"
    and "actions details = Some (''no-op'' # rest)"
  shows "parse_resource_change lib planChanges resourceChange =
     (if importing details \<noteq> None then
        Inr (planChanges
          \<lparr>ImportResourcesCount := ImportResourcesCount planChanges + 1,
           ResouceChangeBody := ResouceChangeBody planChanges @
             [\<lparr>Address = address resourceChange,
               ChangeDif = render_change_diff lib (address resourceChange)
                 (fst (mask_sensitive (or_empty (before_sensitive details))
                    (or_empty (after_sensitive details))
                    (or_empty (before details), or_empty (after details))))
                 (snd (mask_sensitive (or_empty (before_sensitive details))
                    (or_empty (after_sensitive details))
                    (or_empty (before details), or_empty (after details))))
                 ''Import'',
               Action = ''Import''\<rparr>]\<rparr>)
      else Inr planChanges)"
  using assms by (simp add: parse_resource_change_def resolve_action_def Let_def)

theorem no_op_is_import_or_dropped_witness:
  "parse_resource_change example_libraries initial_plan_changes
     (example_record ''aws_s3_bucket.x'' [''no-op''] (Some acl_private) (Some acl_private)
        (Some (JObject [(''id'', JString ''x'')])))
   = Inr (initial_plan_changes\<lparr>ImportResourcesCount := 1,
       ResouceChangeBody :=
         [\<lparr>Address = ''aws_s3_bucket.x'',
           ChangeDif = render_change_diff example_libraries ''aws_s3_bucket.x''
             acl_private acl_private ''Import'',
           Action = ''Import''\<rparr>]\<rparr>)
   \<and> parse_resource_change example_libraries initial_plan_changes
     (example_record ''aws_s3_bucket.x'' [''no-op''] (Some acl_private) (Some acl_private) None)
   = Inr initial_plan_changes"
  using no_op_is_import_or_dropped [of
        "example_record ''aws_s3_bucket.x'' [''no-op''] (Some acl_private) (Some acl_private)
           (Some (JObject [(''id'', JString ''x'')]))"
        "example_details [''no-op''] (Some acl_private) (Some acl_private)
           (Some (JObject [(''id'', JString ''x'')]))"
        "[]" example_libraries initial_plan_changes]
    no_op_is_import_or_dropped [of
        "example_record ''aws_s3_bucket.x'' [''no-op''] (Some acl_private) (Some acl_private) None"
        "example_details [''no-op''] (Some acl_private) (Some acl_private) None"
        "[]" example_libraries initial_plan_changes]
  by (simp add: initial_plan_changes_def example_record_defs mask_sensitive_nothing)

text \<open>
  Claim C4: a record whose first action is none of "no-op", "create", "delete",
  "update" aborts the plan with a fatal error. It does not: the switch has no default
  case, \<open>noChanges\<close> stays true, and the record is left with \<^verbatim>\<open>continue\<close>. A plan whose
  only record has the action "read" is processed without a failure, and yields no
  comment.
\<close>

theorem unknown_verb_aborts_counterexample:
  "plan_comment example_inputs example_libraries
     (example_plan [example_record ''data.aws_ami.x'' [''read''] None (Some acl_private) None])
   = Inr None"
  by (simp add: plan_comment_def example_plan_def example_record_defs parse_resource_change_def
      resolve_action_def mask_sensitive_nothing initial_plan_changes_def Let_def)

text \<open>
  Claim C4 as amended: such a record is dropped. The accumulator is unchanged (no
  Resolved Change, no counter), no error is raised, and the loop goes on with the next
  record.
\<close>

theorem unknown_verb_is_dropped:
  assumes "change resourceChange = Some details"
    and "actions details = Some (verb # rest)"
    and "verb \<noteq> ''no-op''" and "verb \<noteq> ''create''" and "verb \<noteq> ''delete''"
    and "verb \<noteq> ''update''"
  shows "parse_resource_change lib planChanges resourceChange = Inr planChanges \<and>
    parse_resource_changes lib planChanges (resourceChange # others) =
      parse_resource_changes lib planChanges others"
  using assms by (simp add: parse_resource_change_def resolve_action_def Let_def)

theorem unknown_verb_is_dropped_witness:
  "parse_resource_change example_libraries initial_plan_changes
     (example_record ''data.aws_ami.x'' [''read''] None (Some acl_private) None)
   = Inr initial_plan_changes
   \<and> parse_resource_changes example_libraries initial_plan_changes
        [example_record ''data.aws_ami.x'' [''read''] None (Some acl_private) None,
         example_record ''aws_s3_bucket.x'' [''update''] (Some acl_private) (Some acl_public) None]
     = parse_resource_changes example_libraries initial_plan_changes
        [example_record ''aws_s3_bucket.x'' [''update''] (Some acl_private) (Some acl_public) None]"
  using unknown_verb_is_dropped [of
      "example_record ''data.aws_ami.x'' [''read''] None (Some acl_private) None"
      "example_details [''read''] None (Some acl_private) None" "''read''" "[]"
      example_libraries initial_plan_changes
      "[example_record ''aws_s3_bucket.x'' [''update''] (Some acl_private) (Some acl_public) None]"]
  by (simp add: example_record_defs)

section \<open>Properties of the rendering\<close>

text \<open>
  Claim C5: the labels of the patch follow the action: for Create, Update and Import the
  new label carries the action's name and the old label is blank, for Destroy the old
  label carries the name and the new label is blank, and Replace is labelled like
  Create. The last part fails: Replace is not among the three actions that the source
  tests for, so it takes the other branch, and the name is on the old label.
\<close>

theorem replace_labelled_like_create_counterexample:
  "patch_headers ''Replace'' = (Some ''Replace'', None) \<and>
   patch_headers ''Replace'' \<noteq> (None, Some ''Replace'')"
  by (simp add: patch_headers_def)

text \<open>
  Claim C5 as amended: every action that the classification resolves is one of the
  five; for Create, Update and Import the patch is written with a blank old label and
  the action's name as new label; for Destroy and for Replace it is written with the
  action's name as old label and a blank new label.
\<close>

theorem patch_labels_by_action:
  assumes "resolve_action resourceChangeActions has_importing planChanges =
     Some (overallAction, counted)"
  shows "(overallAction = ''Create'' \<or> overallAction = ''Update'' \<or> overallAction = ''Import''
       \<or> overallAction = ''Destroy'' \<or> overallAction = ''Replace'') \<and>
     render_change_diff lib resourceAddress beforeChanges afterChanges overallAction =
       add_diff_heading resourceAddress (sanitize_diff
         (create_patch lib resourceAddress (yaml_stringify lib beforeChanges)
            (yaml_stringify lib afterChanges)
            (if overallAction = ''Destroy'' \<or> overallAction = ''Replace''
             then Some overallAction else None)
            (if overallAction = ''Destroy'' \<or> overallAction = ''Replace''
             then None else Some overallAction)))"
proof -
  from assms have five: "overallAction = ''Create'' \<or> overallAction = ''Update''
      \<or> overallAction = ''Import'' \<or> overallAction = ''Destroy'' \<or> overallAction = ''Replace''"
    by (auto simp: resolve_action_def split: list.splits if_splits)
  then have "patch_headers overallAction =
      (if overallAction = ''Destroy'' \<or> overallAction = ''Replace''
       then (Some overallAction, None) else (None, Some overallAction))"
    by (auto simp: patch_headers_def)
  with five show ?thesis
    by (simp add: render_change_diff_def Let_def)
qed

theorem patch_labels_by_action_witness:
  "render_change_diff example_libraries ''aws_s3_bucket.x'' acl_private acl_public ''Replace'' =
     add_diff_heading ''aws_s3_bucket.x'' (sanitize_diff
       (example_patch ''aws_s3_bucket.x'' (example_yaml acl_private) (example_yaml acl_public)
          (Some ''Replace'') None))"
  using patch_labels_by_action [of "[''delete'', ''create'']" False initial_plan_changes
      "''Replace''"
      "initial_plan_changes\<lparr>CreateResourcesCount := 1, DestroyResourcesCount := 1,
         ReplaceResourcesCount := 1\<rparr>"
      example_libraries "''aws_s3_bucket.x''" acl_private acl_public]
  by (simp add: resolve_action_def initial_plan_changes_def example_libraries_def)

text \<open>The lines of a text make up the text, and have the shape of lines.\<close>

lemma LF_not_marker [simp]: "LF \<noteq> CHR ''+''" "LF \<noteq> CHR ''-''" "CHR ''+'' \<noteq> LF" "CHR ''-'' \<noteq> LF"
  by (simp_all add: LF_def)

lemma terminator_simps [simp]:
  "is_line_terminator LF" "is_line_terminator CR"
  "\<not> is_line_terminator (CHR ''+'')" "\<not> is_line_terminator (CHR ''-'')"
  by (simp_all add: is_line_terminator_def LF_def CR_def)

lemma not_terminator [simp]: "c \<noteq> LF \<Longrightarrow> c \<noteq> CR \<Longrightarrow> \<not> is_line_terminator c"
  by (simp add: is_line_terminator_def)

lemma dropWhile_terminator_line:
  "LF \<notin> set body \<Longrightarrow> CR \<notin> set body \<Longrightarrow>
     dropWhile (\<lambda>x. \<not> is_line_terminator x) (body @ LF # rest) = LF # rest"
  by (induction body) auto

lemma dropWhile_no_terminator:
  "LF \<notin> set body \<Longrightarrow> CR \<notin> set body \<Longrightarrow>
     dropWhile (\<lambda>x. \<not> is_line_terminator x) body = []"
  by (induction body) auto

lemma dropWhile_line: "LF \<notin> set body \<Longrightarrow> dropWhile (\<lambda>x. x \<noteq> LF) (body @ LF # rest) = LF # rest"
  by (induction body) auto

lemma takeWhile_line: "LF \<notin> set body \<Longrightarrow> takeWhile (\<lambda>x. x \<noteq> LF) (body @ LF # rest) = body"
  by (induction body) auto

lemma dropWhile_no_LF: "LF \<notin> set body \<Longrightarrow> dropWhile (\<lambda>x. x \<noteq> LF) body = []"
  by (induction body) auto

lemma concat_text_lines: "concat (text_lines d) = d"
proof (induction d rule: text_lines.induct)
  case 1
  show ?case by (simp add: text_lines.simps)
next
  case (2 c cs)
  show ?case
  proof (cases "dropWhile (\<lambda>x. x \<noteq> LF) (c # cs)")
    case Nil
    then show ?thesis by (simp add: text_lines.simps)
  next
    case (Cons d ds)
    then have "d = LF"
      by (metis (mono_tags, lifting) hd_dropWhile list.sel(1) list.distinct(1))
    have "takeWhile (\<lambda>x. x \<noteq> LF) (c # cs) @ dropWhile (\<lambda>x. x \<noteq> LF) (c # cs) = c # cs"
      by (rule takeWhile_dropWhile_id)
    with Cons 2 [OF Cons] show ?thesis
      by (simp add: text_lines.simps(2) [of c cs])
  qed
qed

lemma is_line_body: "LF \<notin> set body \<Longrightarrow> is_line (body @ [x])"
  by (simp add: is_line_def)

lemma lines_ok_Cons: "lines_ok (l # ls) = (is_line l \<and> (ls \<noteq> [] \<longrightarrow> last l = LF \<and> lines_ok ls))"
  by (cases ls) simp_all

lemma lines_ok_text_lines: "lines_ok (text_lines d)"
proof (induction d rule: text_lines.induct)
  case 1
  show ?case by (simp add: text_lines.simps)
next
  case (2 c cs)
  show ?case
  proof (cases "dropWhile (\<lambda>x. x \<noteq> LF) (c # cs)")
    case Nil
    then have "LF \<notin> set (c # cs)"
      by (metis (mono_tags, lifting) dropWhile_eq_Nil_conv)
    then have "is_line (c # cs)"
      by (auto simp: is_line_def dest: in_set_butlastD)
    with Nil show ?thesis by (simp add: text_lines.simps)
  next
    case (Cons d ds)
    then have d: "d = LF"
      by (metis (mono_tags, lifting) hd_dropWhile list.sel(1) list.distinct(1))
    have "LF \<notin> set (takeWhile (\<lambda>x. x \<noteq> LF) (c # cs))"
      by (metis (mono_tags, lifting) set_takeWhileD)
    then have "is_line (takeWhile (\<lambda>x. x \<noteq> LF) (c # cs) @ [d])"
      by (rule is_line_body)
    with Cons d 2 [OF Cons] show ?thesis
      by (simp add: text_lines.simps(2) [of c cs] lines_ok_Cons)
  qed
qed


text \<open>The first replacement: the lines that do not start with a plus or a minus go.\<close>

lemma rul_inside_last:
  "LF \<notin> set body \<Longrightarrow> CR \<notin> set body \<Longrightarrow> remove_unchanged_lines False body = body"
  by (induction body) (auto simp: remove_unchanged_lines.simps)

lemma rul_inside: "LF \<notin> set body \<Longrightarrow> CR \<notin> set body \<Longrightarrow>
    remove_unchanged_lines False (body @ LF # rest) = body @ LF # remove_unchanged_lines True rest"
  by (induction body) (auto simp: remove_unchanged_lines.simps)

lemma rul_line:
  assumes "LF \<notin> set body" and "CR \<notin> set body"
  shows "remove_unchanged_lines True ((body @ [LF]) @ rest) =
    (if is_change_line (body @ [LF]) then body @ [LF] else []) @ remove_unchanged_lines True rest"
proof (cases body)
  case Nil
  then show ?thesis
    by (simp add: remove_unchanged_lines.simps is_change_line_def)
next
  case (Cons c cs)
  with assms have c: "c \<noteq> LF" "c \<noteq> CR" and cs: "LF \<notin> set cs" "CR \<notin> set cs"
    by auto
  show ?thesis
  proof (cases "c = CHR ''+'' \<or> c = CHR ''-''")
    case True
    with Cons c cs show ?thesis
      by (auto simp: remove_unchanged_lines.simps(2) [of _ c] is_change_line_def rul_inside)
  next
    case False
    have "dropWhile (\<lambda>x. \<not> is_line_terminator x) (c # cs @ LF # rest) = LF # rest"
      using dropWhile_terminator_line [of "c # cs" rest] c cs by simp
    with False Cons show ?thesis
      by (simp add: remove_unchanged_lines.simps(2) [of _ c] is_change_line_def)
  qed
qed

lemma rul_last_line:
  assumes "LF \<notin> set l" and "CR \<notin> set l"
  shows "remove_unchanged_lines True l = (if is_change_line l then l else [])"
proof (cases l)
  case Nil
  then show ?thesis
    by (simp add: remove_unchanged_lines.simps is_change_line_def)
next
  case (Cons c cs)
  with assms have c: "c \<noteq> LF" "c \<noteq> CR" and cs: "LF \<notin> set cs" "CR \<notin> set cs"
    by auto
  show ?thesis
  proof (cases "c = CHR ''+'' \<or> c = CHR ''-''")
    case True
    with Cons c cs show ?thesis
      by (auto simp: remove_unchanged_lines.simps(2) [of _ c] is_change_line_def rul_inside_last)
  next
    case False
    have "dropWhile (\<lambda>x. \<not> is_line_terminator x) (c # cs) = []"
      using dropWhile_no_terminator [of "c # cs"] c cs by simp
    with False Cons show ?thesis
      by (simp add: remove_unchanged_lines.simps(2) [of _ c] is_change_line_def)
  qed
qed

lemma line_cases:
  assumes "is_line l"
  obtains body where "l = body @ [LF]" and "LF \<notin> set body" | "LF \<notin> set l"
proof (cases "last l = LF")
  case True
  from assms have "l = butlast l @ [last l]" and "LF \<notin> set (butlast l)"
    by (simp_all add: is_line_def)
  with True that(1) show ?thesis
    by metis
next
  case False
  from assms have "l = butlast l @ [last l]" and "LF \<notin> set (butlast l)"
    by (simp_all add: is_line_def)
  with False have "LF \<notin> set l"
    by (metis Un_iff empty_iff empty_set set_ConsD set_append)
  with that(2) show ?thesis .
qed

lemma line_with_LF:
  assumes "is_line l" and "last l = LF"
  obtains body where "l = body @ [LF]" and "LF \<notin> set body"
proof -
  from assms have "l = butlast l @ [LF]" and "LF \<notin> set (butlast l)"
    by (auto simp: is_line_def dest: append_butlast_last_id)
  with that show ?thesis
    by blast
qed

lemma remove_unchanged_lines_concat:
  "lines_ok ls \<Longrightarrow> CR \<notin> set (concat ls) \<Longrightarrow>
     remove_unchanged_lines True (concat ls) = concat (filter is_change_line ls)"
proof (induction ls rule: lines_ok.induct)
  case 1
  show ?case by (simp add: remove_unchanged_lines.simps)
next
  case (2 l)
  then have "is_line l" and cr: "CR \<notin> set l" by simp_all
  from this(1) show ?case
  proof (cases rule: line_cases)
    case (1 body)
    with cr have "CR \<notin> set body" by simp
    with 1 rul_line [of body "[]"] show ?thesis
      by (simp add: remove_unchanged_lines.simps)
  next
    case 2
    with cr rul_last_line [of l] show ?thesis
      by simp
  qed
next
  case (3 l l' ls)
  then have line: "is_line l" "last l = LF" and rest: "lines_ok (l' # ls)"
    and cr: "CR \<notin> set l" "CR \<notin> set (concat (l' # ls))"
    by simp_all
  from line obtain body where l: "l = body @ [LF]" and body: "LF \<notin> set body"
    by (rule line_with_LF)
  from cr(1) l have "CR \<notin> set body" by simp
  from rul_line [OF body this, of "concat (l' # ls)"] 3(1) [OF rest cr(2)] l show ?case
    by simp
qed


text \<open>
  The second and the third replacement, on a text whose lines are as they should be:
  line by line, the marker at the start of a line goes.
\<close>

lemma rals_inside_last:
  "LF \<notin> set body \<Longrightarrow> CR \<notin> set body \<Longrightarrow> remove_at_line_start m False body = body"
  by (induction body) (auto simp: remove_at_line_start.simps)

lemma rals_inside: "LF \<notin> set body \<Longrightarrow> CR \<notin> set body \<Longrightarrow>
    remove_at_line_start m False (body @ LF # rest) =
      body @ LF # remove_at_line_start m True rest"
  by (induction body) (auto simp: remove_at_line_start.simps)

text \<open>A marker without a line feed that starts a text starts its first line.\<close>

lemma marker_in_body:
  assumes "take (length m) (body @ LF # rest) = m" and "LF \<notin> set m"
  shows "length m \<le> length body"
proof (rule ccontr)
  assume "\<not> length m \<le> length body"
  then have "length body < length m"
    by simp
  then have "take (length m) (body @ LF # rest) ! length body = LF"
    by (simp add: nth_append)
  with assms(1) \<open>length body < length m\<close> have "LF \<in> set m"
    by (metis nth_mem)
  with assms(2) show False ..
qed

lemma rals_line:
  assumes m: "m \<noteq> []" "LF \<notin> set m" and body: "LF \<notin> set body" "CR \<notin> set body"
  shows "remove_at_line_start m True ((body @ [LF]) @ rest) =
    strip_marker m (body @ [LF]) @ remove_at_line_start m True rest"
proof (cases "take (length m) (body @ LF # rest) = m")
  case True
  from True m(2) have le: "length m \<le> length body"
    by (rule marker_in_body)
  with True have tb: "take (length m) body = m"
    by simp
  define r where "r = drop (length m) body"
  have b: "body = m @ r"
    using tb r_def by (metis append_take_drop_id)
  from body b have r: "LF \<notin> set r" "CR \<notin> set r"
    by simp_all
  from m(1) b obtain c cs where ccs: "m @ r @ LF # rest = c # cs"
    by (cases m) auto
  have taken: "take (length m) (c # cs) = m" and dropped: "drop (length m) (c # cs) = r @ LF # rest"
    using ccs [symmetric] by simp_all
  have strip: "strip_marker m (body @ [LF]) = (if r = [] then [] else r @ [LF])"
    by (simp add: strip_marker_def b)
  show ?thesis
  proof (cases r)
    case Nil
    with taken dropped m(1) have "remove_at_line_start m True (c # cs) =
        remove_at_line_start m True rest"
      by (simp add: remove_at_line_start.simps(2) [of m True c cs])
    with strip Nil b ccs show ?thesis
      by simp
  next
    case (Cons x xs)
    with r have x: "x \<noteq> LF" "x \<noteq> CR" and xs: "LF \<notin> set xs" "CR \<notin> set xs"
      by auto
    from taken dropped m(1) Cons x have "remove_at_line_start m True (c # cs) =
        remove_at_line_start m False (x # xs @ LF # rest)"
      by (simp add: remove_at_line_start.simps(2) [of m True c cs])
    also have "\<dots> = (x # xs) @ LF # remove_at_line_start m True rest"
      using rals_inside [of "x # xs" m rest] x xs by simp
    finally show ?thesis
      using strip Cons b ccs by simp
  qed
next
  case False
  have keep: "strip_marker m (body @ [LF]) = body @ [LF]"
  proof (cases "length m \<le> length body + 1")
    case True
    then have "take (length m) (body @ [LF]) = take (length m) (body @ LF # rest)"
      by (cases "length m \<le> length body") (simp_all add: le_Suc_eq)
    with False show ?thesis
      by (simp add: strip_marker_def)
  next
    case False
    then have "length (take (length m) (body @ [LF])) < length m"
      by simp
    then have "take (length m) (body @ [LF]) \<noteq> m"
      by (metis less_irrefl)
    then show ?thesis
      by (simp add: strip_marker_def)
  qed
  show ?thesis
  proof (cases body)
    case Nil
    with False keep show ?thesis
      by (simp add: remove_at_line_start.simps(2) [of m True LF])
  next
    case (Cons c cs)
    with body have c: "c \<noteq> LF" "c \<noteq> CR" and cs: "LF \<notin> set cs" "CR \<notin> set cs"
      by auto
    from False Cons have "remove_at_line_start m True (c # cs @ LF # rest) =
        c # remove_at_line_start m False (cs @ LF # rest)"
      using c by (simp add: remove_at_line_start.simps(2) [of m True c])
    with rals_inside [OF cs, of m rest] keep Cons show ?thesis
      by simp
  qed
qed

lemma rals_last_line:
  assumes m: "m \<noteq> []" and l: "LF \<notin> set l" "CR \<notin> set l"
  shows "remove_at_line_start m True l = strip_marker m l"
proof (cases l)
  case Nil
  with m show ?thesis
    by (auto simp: remove_at_line_start.simps strip_marker_def)
next
  case (Cons c cs)
  with l have c: "c \<noteq> LF" "c \<noteq> CR" and cs: "LF \<notin> set cs" "CR \<notin> set cs"
    by auto
  show ?thesis
  proof (cases "take (length m) (c # cs) = m")
    case True
    from l Cons have r: "LF \<notin> set (drop (length m) (c # cs))"
      "CR \<notin> set (drop (length m) (c # cs))"
      by (metis in_set_dropD)+
    have unfold: "remove_at_line_start m True (c # cs) =
        (case drop (length m) (c # cs) of
           [] \<Rightarrow> []
         | d # ds \<Rightarrow>
             if d = LF then remove_at_line_start m True ds
             else remove_at_line_start m False (d # ds))"
      using True m by (subst remove_at_line_start.simps(2)) simp
    have strip: "strip_marker m (c # cs) = drop (length m) (c # cs)"
      using True r by (auto simp: strip_marker_def simp del: take_Suc_Cons drop_Suc_Cons)
    show ?thesis
    proof (cases "drop (length m) (c # cs)")
      case Nil
      with unfold strip \<open>l = c # cs\<close> show ?thesis
        by simp
    next
      case (Cons x xs)
      with r have x: "x \<noteq> LF" "x \<noteq> CR" and xs: "LF \<notin> set xs" "CR \<notin> set xs"
        by auto
      from unfold Cons x have "remove_at_line_start m True (c # cs) =
          remove_at_line_start m False (x # xs)"
        by simp
      also have "\<dots> = x # xs"
        using rals_inside_last [of "x # xs" m] x xs by simp
      finally show ?thesis
        using strip Cons \<open>l = c # cs\<close> by simp
    qed
  next
    case False
    with c cs Cons show ?thesis
      by (simp add: remove_at_line_start.simps(2) [of m True c cs] strip_marker_def
          rals_inside_last del: take_Suc_Cons drop_Suc_Cons)
  qed
qed

lemma remove_at_line_start_concat:
  assumes "m \<noteq> []" and "LF \<notin> set m"
  shows "lines_ok ls \<Longrightarrow> CR \<notin> set (concat ls) \<Longrightarrow>
     remove_at_line_start m True (concat ls) = concat (map (strip_marker m) ls)"
proof (induction ls rule: lines_ok.induct)
  case 1
  show ?case by (simp add: remove_at_line_start.simps)
next
  case (2 l)
  then have "is_line l" and cr: "CR \<notin> set l" by simp_all
  from this(1) show ?case
  proof (cases rule: line_cases)
    case (1 body)
    with cr have "CR \<notin> set body" by simp
    with 1 rals_line [OF assms, of body "[]"] show ?thesis
      by (simp add: remove_at_line_start.simps)
  next
    case 2
    with cr rals_last_line [OF assms(1), of l] show ?thesis
      by simp
  qed
next
  case (3 l l' ls)
  then have line: "is_line l" "last l = LF" and rest: "lines_ok (l' # ls)"
    and cr: "CR \<notin> set l" "CR \<notin> set (concat (l' # ls))"
    by simp_all
  from line obtain body where l: "l = body @ [LF]" and body: "LF \<notin> set body"
    by (rule line_with_LF)
  from cr(1) l have "CR \<notin> set body" by simp
  from rals_line [OF assms body this, of "concat (l' # ls)"] 3(1) [OF rest cr(2)] l show ?case
    by simp
qed


text \<open>The three replacements one after the other.\<close>

lemma lines_ok_filter: "lines_ok ls \<Longrightarrow> lines_ok (filter P ls)"
  by (induction ls) (auto simp: lines_ok_Cons)

lemma strip_marker_Nil [simp]: "strip_marker m [] = []"
  by (simp add: strip_marker_def)

lemma strip_marker_line:
  assumes "is_line l"
  shows "strip_marker m l = [] \<or>
    (is_line (strip_marker m l) \<and> last (strip_marker m l) = last l)"
proof (cases "strip_marker m l = l \<or> strip_marker m l = []")
  case True
  with assms show ?thesis by auto
next
  case False
  then have s: "strip_marker m l = drop (length m) l" and ne: "drop (length m) l \<noteq> []"
    by (auto simp: strip_marker_def split: if_splits)
  from assms have "LF \<notin> set (butlast (drop (length m) l))"
    by (auto simp: is_line_def butlast_drop dest: in_set_dropD)
  moreover from ne have "last (drop (length m) l) = last l"
    by simp
  ultimately show ?thesis
    using s ne by (simp add: is_line_def)
qed

lemma lines_ok_strip:
  "lines_ok ls \<Longrightarrow> lines_ok (filter (\<lambda>l. l \<noteq> []) (map (strip_marker m) ls))"
proof (induction ls)
  case Nil
  show ?case by simp
next
  case (Cons l ls)
  then have l: "is_line l" and rest: "ls \<noteq> [] \<longrightarrow> last l = LF \<and> lines_ok ls"
    by (simp_all add: lines_ok_Cons)
  have tail: "lines_ok (filter (\<lambda>l. l \<noteq> []) (map (strip_marker m) ls))"
  proof (cases ls)
    case Nil
    then show ?thesis by simp
  next
    case (Cons l' ls')
    with rest Cons.IH show ?thesis by simp
  qed
  from strip_marker_line [OF l, of m] show ?case
  proof
    assume "strip_marker m l = []"
    with tail show ?thesis by simp
  next
    assume kept: "is_line (strip_marker m l) \<and> last (strip_marker m l) = last l"
    then have "strip_marker m l \<noteq> []"
      by (auto simp: is_line_def)
    with kept tail rest show ?thesis
      by (cases ls) (auto simp: lines_ok_Cons)
  qed
qed

lemma concat_filter_nonempty: "concat (filter (\<lambda>l. l \<noteq> []) xs) = concat xs"
  by (induction xs) simp_all

lemma concat_map_filter_nonempty:
  "f [] = [] \<Longrightarrow> concat (map f (filter (\<lambda>l. l \<noteq> []) xs)) = concat (map f xs)"
  by (induction xs) simp_all

lemma concat_map_filter:
  "concat (map f (filter P xs)) = concat (map (\<lambda>x. if P x then f x else []) xs)"
  by (induction xs) simp_all

lemma set_strip_marker: "set (strip_marker m l) \<subseteq> set l"
  by (auto simp: strip_marker_def dest: in_set_dropD)

lemma no_CR_filter: "CR \<notin> set (concat ls) \<Longrightarrow> CR \<notin> set (concat (filter P ls))"
  by auto

lemma no_CR_strip:
  "CR \<notin> set (concat ls) \<Longrightarrow> CR \<notin> set (concat (map (strip_marker m) ls))"
  using set_strip_marker by fastforce

lemma sanitize_diff_lines:
  assumes "CR \<notin> set d"
  shows "sanitize_diff d = concat (map kept_of_line (text_lines d))"
proof -
  let ?L1 = "filter is_change_line (text_lines d)"
  let ?L2 = "filter (\<lambda>l. l \<noteq> []) (map (strip_marker ''-{}'') ?L1)"
  have ok1: "lines_ok ?L1"
    by (rule lines_ok_filter) (rule lines_ok_text_lines)
  have ok2: "lines_ok ?L2"
    using ok1 by (rule lines_ok_strip)
  from assms have cr0: "CR \<notin> set (concat (text_lines d))"
    by (simp add: concat_text_lines)
  then have cr1: "CR \<notin> set (concat ?L1)"
    by (rule no_CR_filter)
  then have "CR \<notin> set (concat (map (strip_marker ''-{}'') ?L1))"
    by (rule no_CR_strip)
  then have cr2: "CR \<notin> set (concat ?L2)"
    by (rule no_CR_filter)
  have minus: "''-{}'' \<noteq> []" "LF \<notin> set ''-{}''" and plus: "''+{}'' \<noteq> []" "LF \<notin> set ''+{}''"
    by (simp_all add: LF_def)
  have "remove_unchanged_lines True d = concat ?L1"
    using remove_unchanged_lines_concat [OF lines_ok_text_lines cr0]
    by (simp add: concat_text_lines)
  then have "remove_at_line_start ''-{}'' True (remove_unchanged_lines True d) = concat ?L2"
    using remove_at_line_start_concat [OF minus ok1 cr1] by (simp add: concat_filter_nonempty)
  then have "sanitize_diff d = concat (map (strip_marker ''+{}'') ?L2)"
    using remove_at_line_start_concat [OF plus ok2 cr2] by (simp add: sanitize_diff_def)
  also have "\<dots> = concat (map (strip_marker ''+{}'') (map (strip_marker ''-{}'') ?L1))"
    by (rule concat_map_filter_nonempty) simp
  also have "\<dots> = concat (map kept_of_line (text_lines d))"
    by (simp add: concat_map_filter kept_of_line_def [abs_def] comp_def)
  finally show ?thesis .
qed

text \<open>
  Claim C6: the post-processing of every rendered diff removes every line that is not an
  addition or a deletion, and every line that is exactly \<^verbatim>\<open>+{}\<close> or \<^verbatim>\<open>-{}\<close>, and
  puts a heading line with the resource address and a separator line before what is
  left. Not of every rendered diff: the first pattern ends its match at a carriage return
  and leaves it where it is, and the text behind it is the start of a line for all three
  patterns. Of a patch whose only line is a context line with a carriage return inside,
  the carriage return and what stands behind it are left, though the line does not
  start with a plus or a minus.
\<close>

theorem line_with_carriage_return_counterexample:
  "sanitize_diff ('' ctx'' @ [CR] @ ''+kept'' @ [LF]) = [CR] @ ''+kept'' @ [LF] \<and>
   text_lines ('' ctx'' @ [CR] @ ''+kept'' @ [LF]) = ['' ctx'' @ [CR] @ ''+kept'' @ [LF]] \<and>
   \<not> is_change_line ('' ctx'' @ [CR] @ ''+kept'' @ [LF])"
  by (simp add: sanitize_diff_def remove_unchanged_lines.simps remove_at_line_start.simps
      text_lines.simps is_change_line_def is_line_terminator_def LF_def CR_def)

text \<open>
  Claim C6 as amended: for every rendered diff whose patch ends its lines with line
  feeds only (it holds no carriage return; U+2028 and U+2029 are no characters of the
  model), the post-processing removes every line that is not an addition or a deletion,
  and every line that is exactly \<^verbatim>\<open>+{}\<close> or \<^verbatim>\<open>-{}\<close>, and puts a heading line with the
  resource address and a separator line before what is left. The fragment is the
  heading, the separator, then line by line of the patch what \<^const>\<open>kept_of_line\<close>
  keeps, then a line feed. Nothing is kept of a line that does not start with a plus or
  a minus, nor of a line that is one of the two markers, with or without its line feed;
  a line that starts with a plus or a minus and with neither marker is kept as it is.
  (Of a line that goes on behind a marker, the patterns remove the marker and keep the
  rest.)
\<close>

theorem line_feed_diff_lines_kept:
  assumes "CR \<notin> set (create_patch lib resourceAddress (yaml_stringify lib beforeChanges)
      (yaml_stringify lib afterChanges)
      (fst (patch_headers overallAction)) (snd (patch_headers overallAction)))"
  shows "render_change_diff lib resourceAddress beforeChanges afterChanges overallAction =
     [LF] @ ''Resource: '' @ resourceAddress @ [LF] @
     ''==================================================================='' @ [LF] @
     concat (map kept_of_line (text_lines
       (create_patch lib resourceAddress (yaml_stringify lib beforeChanges)
          (yaml_stringify lib afterChanges)
          (fst (patch_headers overallAction)) (snd (patch_headers overallAction))))) @
     [LF] \<and>
   (\<forall>l. \<not> is_change_line l \<longrightarrow> kept_of_line l = []) \<and>
   kept_of_line ''+{}'' = [] \<and> kept_of_line (''+{}'' @ [LF]) = [] \<and>
   kept_of_line ''-{}'' = [] \<and> kept_of_line (''-{}'' @ [LF]) = [] \<and>
   (\<forall>l. is_change_line l \<and> take 3 l \<noteq> ''+{}'' \<and> take 3 l \<noteq> ''-{}'' \<longrightarrow> kept_of_line l = l)"
proof -
  have "render_change_diff lib resourceAddress beforeChanges afterChanges overallAction =
     [LF] @ ''Resource: '' @ resourceAddress @ [LF] @
     ''==================================================================='' @ [LF] @
     concat (map kept_of_line (text_lines
       (create_patch lib resourceAddress (yaml_stringify lib beforeChanges)
          (yaml_stringify lib afterChanges)
          (fst (patch_headers overallAction)) (snd (patch_headers overallAction))))) @
     [LF]"
    by (simp add: render_change_diff_def Let_def add_diff_heading_def separator_line_def
        sanitize_diff_lines [OF assms])
  moreover have "\<forall>l. \<not> is_change_line l \<longrightarrow> kept_of_line l = []"
    by (simp add: kept_of_line_def)
  moreover have "kept_of_line ''+{}'' = []" "kept_of_line (''+{}'' @ [LF]) = []"
    "kept_of_line ''-{}'' = []" "kept_of_line (''-{}'' @ [LF]) = []"
    by (simp_all add: kept_of_line_def is_change_line_def strip_marker_def LF_def)
  moreover have "\<forall>l. is_change_line l \<and> take 3 l \<noteq> ''+{}'' \<and> take 3 l \<noteq> ''-{}''
      \<longrightarrow> kept_of_line l = l"
    by (simp add: kept_of_line_def strip_marker_def numeral_3_eq_3)
  ultimately show ?thesis
    by blast
qed

text \<open>
  The creation of a bucket: the two label lines and the added attribute are left of the
  patch; the index line, the separator, the hunk header and the \<^verbatim>\<open>-{}\<close> of the empty
  mapping are gone.
\<close>

theorem line_feed_diff_lines_kept_witness:
  "render_change_diff example_libraries ''a.x'' [] acl_public ''Create'' =
     [LF] @ ''Resource: a.x'' @ [LF] @
     ''==================================================================='' @ [LF] @
     ''--- a.x'' @ [LF] @
     ''+++ a.x'' @ [TAB] @ ''Create'' @ [LF] @
     ''+acl: public'' @ [LF] @
     [LF]"
  using line_feed_diff_lines_kept [of example_libraries "''a.x''" "[]" acl_public "''Create''"]
  by (simp add: example_libraries_def example_yaml_def example_patch_def example_header_def
      example_scalar_def separator_line_def patch_headers_def acl_public_def
      text_lines.simps kept_of_line_def strip_marker_def is_change_line_def LF_def TAB_def
      CR_def)

section \<open>Properties of the accumulator\<close>

lemmas eval_defs = parse_resource_change_def resolve_action_def mask_sensitive_nothing
  initial_plan_changes_def example_record_defs Let_def

text \<open>One record: the counters and the collected changes stay in step, and only grow.\<close>

lemma parse_resource_change_counts:
  assumes "parse_resource_change lib pc rc = Inr pc'"
  shows "length (ResouceChangeBody pc) + ReplaceResourcesCount pc =
           CreateResourcesCount pc + UpdateResourcesCount pc + DestroyResourcesCount pc
             + ImportResourcesCount pc \<Longrightarrow>
         length (ResouceChangeBody pc') + ReplaceResourcesCount pc' =
           CreateResourcesCount pc' + UpdateResourcesCount pc' + DestroyResourcesCount pc'
             + ImportResourcesCount pc'"
    and "ReplaceResourcesCount pc \<le> CreateResourcesCount pc \<Longrightarrow>
         ReplaceResourcesCount pc' \<le> CreateResourcesCount pc'"
    and "ReplaceResourcesCount pc \<le> DestroyResourcesCount pc \<Longrightarrow>
         ReplaceResourcesCount pc' \<le> DestroyResourcesCount pc'"
  using assms
  by (auto simp: parse_resource_change_def resolve_action_def Let_def
      split: option.splits list.splits if_splits)

lemma parse_resource_change_grows:
  assumes "parse_resource_change lib pc rc = Inr pc'"
  shows "CreateResourcesCount pc \<le> CreateResourcesCount pc'"
    and "UpdateResourcesCount pc \<le> UpdateResourcesCount pc'"
    and "DestroyResourcesCount pc \<le> DestroyResourcesCount pc'"
    and "ReplaceResourcesCount pc \<le> ReplaceResourcesCount pc'"
    and "ImportResourcesCount pc \<le> ImportResourcesCount pc'"
    and "length (ResouceChangeBody pc) \<le> length (ResouceChangeBody pc')"
  using assms
  by (auto simp: parse_resource_change_def resolve_action_def Let_def
      split: option.splits list.splits if_splits)

lemma parse_resource_changes_counts:
  assumes "parse_resource_changes lib pc rcs = Inr pc'"
    and "length (ResouceChangeBody pc) + ReplaceResourcesCount pc =
           CreateResourcesCount pc + UpdateResourcesCount pc + DestroyResourcesCount pc
             + ImportResourcesCount pc"
    and "ReplaceResourcesCount pc \<le> CreateResourcesCount pc"
    and "ReplaceResourcesCount pc \<le> DestroyResourcesCount pc"
  shows "length (ResouceChangeBody pc') + ReplaceResourcesCount pc' =
           CreateResourcesCount pc' + UpdateResourcesCount pc' + DestroyResourcesCount pc'
             + ImportResourcesCount pc' \<and>
         ReplaceResourcesCount pc' \<le> CreateResourcesCount pc' \<and>
         ReplaceResourcesCount pc' \<le> DestroyResourcesCount pc'"
  using assms
proof (induction rcs arbitrary: pc)
  case Nil
  then show ?case by simp
next
  case (Cons rc rcs)
  from Cons.prems(1) obtain mid where one: "parse_resource_change lib pc rc = Inr mid"
    and rest: "parse_resource_changes lib mid rcs = Inr pc'"
    by (auto split: sum.splits)
  show ?case
    using Cons.IH [OF rest] parse_resource_change_counts [OF one] Cons.prems(2-4)
    by blast
qed

lemma parse_resource_changes_grows:
  assumes "parse_resource_changes lib pc rcs = Inr pc'"
  shows "CreateResourcesCount pc \<le> CreateResourcesCount pc' \<and>
         UpdateResourcesCount pc \<le> UpdateResourcesCount pc' \<and>
         DestroyResourcesCount pc \<le> DestroyResourcesCount pc' \<and>
         ReplaceResourcesCount pc \<le> ReplaceResourcesCount pc' \<and>
         ImportResourcesCount pc \<le> ImportResourcesCount pc' \<and>
         length (ResouceChangeBody pc) \<le> length (ResouceChangeBody pc')"
  using assms
proof (induction rcs arbitrary: pc)
  case Nil
  then show ?case by simp
next
  case (Cons rc rcs)
  from Cons.prems(1) obtain mid where one: "parse_resource_change lib pc rc = Inr mid"
    and rest: "parse_resource_changes lib mid rcs = Inr pc'"
    by (auto split: sum.splits)
  show ?case
    using Cons.IH [OF rest] parse_resource_change_grows [OF one]
    by (meson le_trans)
qed

text \<open>
  Claim C10: after any prefix of a plan's records has been processed, the number of
  collected Resolved Changes is Create + Update + Destroy + Import - Replace, the Replace
  counter is at most the smaller of the Create and Destroy counters (so nothing is lost
  in the subtraction), and when further records are processed no counter goes down.
\<close>

theorem accumulator_invariant:
  assumes "parse_resource_changes lib initial_plan_changes processed = Inr planChanges"
    and "parse_resource_changes lib planChanges further = Inr planChanges'"
  shows "length (ResouceChangeBody planChanges) =
           CreateResourcesCount planChanges + UpdateResourcesCount planChanges
             + DestroyResourcesCount planChanges + ImportResourcesCount planChanges
             - ReplaceResourcesCount planChanges \<and>
         ReplaceResourcesCount planChanges
           \<le> min (CreateResourcesCount planChanges) (DestroyResourcesCount planChanges) \<and>
         CreateResourcesCount planChanges \<le> CreateResourcesCount planChanges' \<and>
         UpdateResourcesCount planChanges \<le> UpdateResourcesCount planChanges' \<and>
         DestroyResourcesCount planChanges \<le> DestroyResourcesCount planChanges' \<and>
         ReplaceResourcesCount planChanges \<le> ReplaceResourcesCount planChanges' \<and>
         ImportResourcesCount planChanges \<le> ImportResourcesCount planChanges'"
proof -
  have "length (ResouceChangeBody planChanges) + ReplaceResourcesCount planChanges =
           CreateResourcesCount planChanges + UpdateResourcesCount planChanges
             + DestroyResourcesCount planChanges + ImportResourcesCount planChanges \<and>
         ReplaceResourcesCount planChanges \<le> CreateResourcesCount planChanges \<and>
         ReplaceResourcesCount planChanges \<le> DestroyResourcesCount planChanges"
    by (rule parse_resource_changes_counts [OF assms(1)])
      (simp_all add: initial_plan_changes_def)
  then show ?thesis
    using parse_resource_changes_grows [OF assms(2)] by linarith
qed

theorem accumulator_invariant_witness:
  "\<exists>planChanges planChanges'.
     parse_resource_changes example_libraries initial_plan_changes
       [example_record ''a.x'' [''delete'', ''create''] (Some acl_private) (Some acl_public) None,
        example_record ''a.y'' [''create''] None (Some acl_public) None] = Inr planChanges \<and>
     parse_resource_changes example_libraries planChanges
       [example_record ''a.z'' [''delete''] (Some acl_private) None None] = Inr planChanges' \<and>
     length (ResouceChangeBody planChanges) = 2 \<and>
     CreateResourcesCount planChanges = 2 \<and> DestroyResourcesCount planChanges = 1 \<and>
     ReplaceResourcesCount planChanges = 1 \<and> DestroyResourcesCount planChanges' = 2"
proof -
  obtain pc where pc: "parse_resource_changes example_libraries initial_plan_changes
       [example_record ''a.x'' [''delete'', ''create''] (Some acl_private) (Some acl_public) None,
        example_record ''a.y'' [''create''] None (Some acl_public) None] = Inr pc"
    and c: "CreateResourcesCount pc = 2" "DestroyResourcesCount pc = 1" "ReplaceResourcesCount pc = 1"
      "UpdateResourcesCount pc = 0" "ImportResourcesCount pc = 0"
    by (simp add: eval_defs)
  obtain pc' where pc': "parse_resource_changes example_libraries pc
       [example_record ''a.z'' [''delete''] (Some acl_private) None None] = Inr pc'"
    and d: "DestroyResourcesCount pc' = DestroyResourcesCount pc + 1"
    by (simp add: eval_defs)
  from accumulator_invariant [OF pc pc'] c d pc pc' show ?thesis
    by (intro exI [of _ pc] exI [of _ pc']) simp
qed

section \<open>Properties of the comment\<close>

text \<open>Every section text starts with its heading, so none is empty.\<close>

lemma add_to_section_nonempty:
  assumes "resourcesToCreateContent c \<noteq> [] \<and> resourcesToDestroyContent c \<noteq> [] \<and>
     resourcesToUpdateContent c \<noteq> [] \<and> resourcesToReplaceContent c \<noteq> [] \<and>
     resourcesToImportContent c \<noteq> []"
  shows "resourcesToCreateContent (add_to_section b c) \<noteq> [] \<and>
     resourcesToDestroyContent (add_to_section b c) \<noteq> [] \<and>
     resourcesToUpdateContent (add_to_section b c) \<noteq> [] \<and>
     resourcesToReplaceContent (add_to_section b c) \<noteq> [] \<and>
     resourcesToImportContent (add_to_section b c) \<noteq> []"
  using assms by (simp add: add_to_section_def)

lemma fold_add_to_section_nonempty:
  assumes "resourcesToCreateContent c \<noteq> [] \<and> resourcesToDestroyContent c \<noteq> [] \<and>
     resourcesToUpdateContent c \<noteq> [] \<and> resourcesToReplaceContent c \<noteq> [] \<and>
     resourcesToImportContent c \<noteq> []"
  shows "resourcesToCreateContent (fold add_to_section bodies c) \<noteq> [] \<and>
     resourcesToDestroyContent (fold add_to_section bodies c) \<noteq> [] \<and>
     resourcesToUpdateContent (fold add_to_section bodies c) \<noteq> [] \<and>
     resourcesToReplaceContent (fold add_to_section bodies c) \<noteq> [] \<and>
     resourcesToImportContent (fold add_to_section bodies c) \<noteq> []"
  using assms
proof (induction bodies arbitrary: c)
  case Nil
  then show ?case by simp
next
  case (Cons b bodies)
  show ?case
    using Cons.IH [OF add_to_section_nonempty [OF Cons.prems]] by simp
qed

lemma fill_sections_nonempty:
  "resourcesToCreateContent (fill_sections bodies) \<noteq> [] \<and>
   resourcesToDestroyContent (fill_sections bodies) \<noteq> [] \<and>
   resourcesToUpdateContent (fill_sections bodies) \<noteq> [] \<and>
   resourcesToReplaceContent (fill_sections bodies) \<noteq> [] \<and>
   resourcesToImportContent (fill_sections bodies) \<noteq> []"
  unfolding fill_sections_def
  by (rule fold_add_to_section_nonempty)
    (simp add: initial_section_contents_def section_heading_def)

text \<open>
  Claim C8: in the comment, the Create section is there exactly when the Create counter
  is greater than the Replace counter, the Destroy section exactly when the Destroy
  counter is greater than the Replace counter, and the Update, Replace and Import
  sections exactly when their counters are greater than zero. The comment is the head,
  the five slots each followed by a line feed, and the tail; a slot is its section's text
  or empty, and which of the two is a matter of the counters alone.
\<close>

theorem sections_by_count:
  "(let contents = fill_sections (ResouceChangeBody planChanges) in
     comment_body inputs resolvedCommentHeader planChanges =
       comment_head inputs resolvedCommentHeader planChanges @
       create_slot planChanges contents @ [LF] @
       destroy_slot planChanges contents @ [LF] @
       update_slot planChanges contents @ [LF] @
       replace_slot planChanges contents @ [LF] @
       import_slot planChanges contents @ [LF] @
       comment_tail inputs \<and>
     create_slot planChanges contents =
       (if CreateResourcesCount planChanges > ReplaceResourcesCount planChanges
        then resourcesToCreateContent contents else []) \<and>
     destroy_slot planChanges contents =
       (if DestroyResourcesCount planChanges > ReplaceResourcesCount planChanges
        then resourcesToDestroyContent contents else []) \<and>
     update_slot planChanges contents =
       (if UpdateResourcesCount planChanges > 0 then resourcesToUpdateContent contents else []) \<and>
     replace_slot planChanges contents =
       (if ReplaceResourcesCount planChanges > 0 then resourcesToReplaceContent contents else []) \<and>
     import_slot planChanges contents =
       (if ImportResourcesCount planChanges > 0 then resourcesToImportContent contents else []) \<and>
     (create_slot planChanges contents \<noteq> [] \<longleftrightarrow>
        CreateResourcesCount planChanges > ReplaceResourcesCount planChanges) \<and>
     (destroy_slot planChanges contents \<noteq> [] \<longleftrightarrow>
        DestroyResourcesCount planChanges > ReplaceResourcesCount planChanges) \<and>
     (update_slot planChanges contents \<noteq> [] \<longleftrightarrow> UpdateResourcesCount planChanges > 0) \<and>
     (replace_slot planChanges contents \<noteq> [] \<longleftrightarrow> ReplaceResourcesCount planChanges > 0) \<and>
     (import_slot planChanges contents \<noteq> [] \<longleftrightarrow> ImportResourcesCount planChanges > 0))"
  using fill_sections_nonempty [of "ResouceChangeBody planChanges"]
  by (simp add: comment_body_def Let_def create_slot_def destroy_slot_def update_slot_def
      replace_slot_def import_slot_def)

text \<open>
  A plan that replaces one resource and destroys another: Create 1, Destroy 2, Replace 1.
  The Create section is left out, the Destroy and Replace sections are there.
\<close>

theorem sections_by_count_witness:
  "\<exists>planChanges.
     parse_resource_changes example_libraries initial_plan_changes
       [example_record ''a.x'' [''delete'', ''create''] (Some acl_private) (Some acl_public) None,
        example_record ''a.y'' [''delete''] (Some acl_private) None None] = Inr planChanges \<and>
     create_slot planChanges (fill_sections (ResouceChangeBody planChanges)) = [] \<and>
     destroy_slot planChanges (fill_sections (ResouceChangeBody planChanges)) \<noteq> [] \<and>
     update_slot planChanges (fill_sections (ResouceChangeBody planChanges)) = [] \<and>
     replace_slot planChanges (fill_sections (ResouceChangeBody planChanges)) \<noteq> [] \<and>
     import_slot planChanges (fill_sections (ResouceChangeBody planChanges)) = []"
proof -
  obtain pc where pc: "parse_resource_changes example_libraries initial_plan_changes
       [example_record ''a.x'' [''delete'', ''create''] (Some acl_private) (Some acl_public) None,
        example_record ''a.y'' [''delete''] (Some acl_private) None None] = Inr pc"
    and c: "CreateResourcesCount pc = 1" "DestroyResourcesCount pc = 2"
      "ReplaceResourcesCount pc = 1" "UpdateResourcesCount pc = 0" "ImportResourcesCount pc = 0"
    by (simp add: eval_defs)
  have "create_slot pc (fill_sections (ResouceChangeBody pc)) = [] \<and>
     destroy_slot pc (fill_sections (ResouceChangeBody pc)) \<noteq> [] \<and>
     update_slot pc (fill_sections (ResouceChangeBody pc)) = [] \<and>
     replace_slot pc (fill_sections (ResouceChangeBody pc)) \<noteq> [] \<and>
     import_slot pc (fill_sections (ResouceChangeBody pc)) = []"
  proof -
    let ?contents = "fill_sections (ResouceChangeBody pc)"
    have "(create_slot pc ?contents \<noteq> [] \<longleftrightarrow>
          CreateResourcesCount pc > ReplaceResourcesCount pc) \<and>
       (destroy_slot pc ?contents \<noteq> [] \<longleftrightarrow>
          DestroyResourcesCount pc > ReplaceResourcesCount pc) \<and>
       (update_slot pc ?contents \<noteq> [] \<longleftrightarrow> UpdateResourcesCount pc > 0) \<and>
       (replace_slot pc ?contents \<noteq> [] \<longleftrightarrow> ReplaceResourcesCount pc > 0) \<and>
       (import_slot pc ?contents \<noteq> [] \<longleftrightarrow> ImportResourcesCount pc > 0)"
      using sections_by_count [of pc example_inputs "''Terraform plan''"]
      unfolding Let_def by blast
    with c show ?thesis
      by simp
  qed
  with pc show ?thesis
    by blast
qed

section \<open>Properties of the run\<close>

lemma plan_comments_append:
  "plan_comments inputs lib (xs @ ys) planComments =
     (case plan_comments inputs lib xs planComments of
        Inl f \<Rightarrow> Inl f
      | Inr collected \<Rightarrow> plan_comments inputs lib ys collected)"
  by (induction xs arbitrary: planComments) (auto split: sum.splits option.splits)

lemma true_no_op_is_dropped:
  assumes "is_true_no_op resourceChange"
  shows "parse_resource_change lib planChanges resourceChange = Inr planChanges"
proof -
  from assms obtain details acts where d: "change resourceChange = Some details"
    and a: "actions details = Some acts" and n: "importing details = None"
    and f: "(case acts of [] \<Rightarrow> False | first # _ \<Rightarrow> first = ''no-op'')"
    by (auto simp: is_true_no_op_def split: option.splits)
  from f obtain rest where "acts = ''no-op'' # rest"
    by (cases acts) auto
  with d a n show ?thesis
    by (simp add: parse_resource_change_def resolve_action_def Let_def)
qed

lemma plan_of_no_ops_has_no_changes:
  assumes "list_all is_true_no_op resourceChanges"
  shows "parse_resource_changes lib planChanges resourceChanges = Inr planChanges"
  using assms by (induction resourceChanges) (simp_all add: true_no_op_is_dropped)

text \<open>
  Claim C9: a plan whose processing yields zero Resolved Changes gets no comment. Its
  pass of the loop pushes nothing; the run is the run over the other plans; alone, it
  ends the run before anything is posted. A plan whose records are all no-ops without an
  import marker is such a plan.
\<close>

theorem no_changes_no_comment:
  assumes "resource_changes parsedContent = Some resourceChanges"
    and "parse_resource_changes lib initial_plan_changes resourceChanges = Inr planChanges"
    and "ResouceChangeBody planChanges = []"
  shows "plan_comment inputs lib parsedContent = Inr None \<and>
    plan_comments inputs lib (earlier @ parsedContent # later) planComments =
      plan_comments inputs lib (earlier @ later) planComments \<and>
    run inputs lib (earlier @ parsedContent # later) = run inputs lib (earlier @ later) \<and>
    run inputs lib [parsedContent] = NothingToPost"
proof -
  from assms have skip: "plan_comment inputs lib parsedContent = Inr None"
    by (simp add: plan_comment_def)
  then have same: "plan_comments inputs lib (earlier @ parsedContent # later) acc =
      plan_comments inputs lib (earlier @ later) acc" for acc
    by (simp add: plan_comments_append split: sum.splits)
  from skip same [of "[]"] show ?thesis
    using same [of planComments] by (simp add: run_def)
qed

theorem no_changes_no_comment_witness:
  "run example_inputs example_libraries
     [example_plan [example_record ''a.x'' [''update''] (Some acl_private) (Some acl_public) None],
      example_plan [example_record ''a.y'' [''no-op''] (Some acl_private) (Some acl_private) None,
                    example_record ''a.z'' [''no-op''] (Some acl_public) (Some acl_public) None]]
   = run example_inputs example_libraries
     [example_plan [example_record ''a.x'' [''update''] (Some acl_private) (Some acl_public) None]]
   \<and> run example_inputs example_libraries
     [example_plan [example_record ''a.y'' [''no-op''] (Some acl_private) (Some acl_private) None,
                    example_record ''a.z'' [''no-op''] (Some acl_public) (Some acl_public) None]]
   = NothingToPost"
proof -
  let ?p = "example_plan [example_record ''a.y'' [''no-op''] (Some acl_private) (Some acl_private) None,
                    example_record ''a.z'' [''no-op''] (Some acl_public) (Some acl_public) None]"
  let ?q = "example_plan [example_record ''a.x'' [''update''] (Some acl_private) (Some acl_public) None]"
  have rc: "resource_changes ?p = Some [example_record ''a.y'' [''no-op''] (Some acl_private) (Some acl_private) None,
                    example_record ''a.z'' [''no-op''] (Some acl_public) (Some acl_public) None]"
    by (simp add: example_plan_def)
  have parsed: "parse_resource_changes example_libraries initial_plan_changes
      [example_record ''a.y'' [''no-op''] (Some acl_private) (Some acl_private) None,
       example_record ''a.z'' [''no-op''] (Some acl_public) (Some acl_public) None]
     = Inr initial_plan_changes"
    by (rule plan_of_no_ops_has_no_changes) (simp add: is_true_no_op_def example_record_defs)
  have none: "ResouceChangeBody initial_plan_changes = []"
    by (simp add: initial_plan_changes_def)
  from no_changes_no_comment [OF rc parsed none, of example_inputs "[?q]" "[]" "[]"]
  show ?thesis by simp
qed

lemma string_of_nat_max: "string_of_nat MAX_GITHUB_COMMENT_BODY_SIZE = ''65536''"
  by (simp add: MAX_GITHUB_COMMENT_BODY_SIZE_def string_of_nat.simps digit_char_def)

text \<open>
  Claim C7: when the comment assembled for a plan is longer than 65536, the run fails
  with an error whose message names the length and the maximum, and nothing is posted:
  neither a shortened comment for this plan nor the comments of the plans before it.
  The plans before it are plans that did not fail, so that the run reaches this one.
\<close>

theorem too_large_comment_fails:
  assumes "plan_comments inputs lib earlier [] = Inr planComments"
    and "resource_changes parsedContent = Some resourceChanges"
    and "parse_resource_changes lib initial_plan_changes resourceChanges = Inr planChanges"
    and "ResouceChangeBody planChanges \<noteq> []"
    and "length (comment_body inputs (resolve_comment_header inputs parsedContent) planChanges)
           > 65536"
  shows "run inputs lib (earlier @ parsedContent # later) =
    SetFailed (CommentTooLarge
      (''Comment body size is too large for GitHub comment: '' @
       string_of_nat
         (length (comment_body inputs (resolve_comment_header inputs parsedContent) planChanges))
       @ '' > 65536''))"
proof -
  from assms(2-5) have "plan_comment inputs lib parsedContent =
    Inl (CommentTooLarge (too_large_message
      (length (comment_body inputs (resolve_comment_header inputs parsedContent) planChanges))))"
    by (simp add: plan_comment_def Let_def MAX_GITHUB_COMMENT_BODY_SIZE_def)
  with assms(1) show ?thesis
    by (simp add: run_def plan_comments_append too_large_message_def string_of_nat_max)
qed

lemma length_long_header: "length long_header = 65536"
  by (simp add: long_header_def)

lemmas render_defs = render_change_diff_def sanitize_diff_def add_diff_heading_def patch_headers_def
  example_libraries_def example_yaml_def example_patch_def example_header_def example_scalar_def
  separator_line_def text_lines.simps remove_unchanged_lines.simps remove_at_line_start.simps
  is_line_terminator_def LF_def CR_def TAB_def

lemmas comment_defs = comment_body_def comment_head_def comment_tail_def badges_def badge_def
  create_slot_def destroy_slot_def update_slot_def replace_slot_def import_slot_def
  fill_sections_def add_to_section_def initial_section_contents_def section_heading_def
  diff_block_def

theorem too_large_comment_fails_witness:
  "run (example_inputs\<lparr>commentHeader := long_header\<rparr>) example_libraries
     [example_plan [example_record ''a.x'' [''update''] (Some acl_private) (Some acl_public) None]]
   = SetFailed (CommentTooLarge
       ''Comment body size is too large for GitHub comment: 66106 > 65536'')"
proof -
  let ?inputs = "example_inputs\<lparr>commentHeader := long_header\<rparr>"
  let ?rcs = "[example_record ''a.x'' [''update''] (Some acl_private) (Some acl_public) None]"
  obtain pc where pc: "parse_resource_changes example_libraries initial_plan_changes ?rcs = Inr pc"
    and val: "pc = \<lparr>CreateResourcesCount = 0, UpdateResourcesCount = 1, DestroyResourcesCount = 0,
      ReplaceResourcesCount = 0, ImportResourcesCount = 0, ResouceChangeBody =
        [\<lparr>Address = ''a.x'', ChangeDif = render_change_diff example_libraries ''a.x'' acl_private acl_public ''Update'',
          Action = ''Update''\<rparr>]\<rparr>"
    by (simp add: eval_defs)
  have rc: "resource_changes (example_plan ?rcs) = Some ?rcs"
    by (simp add: example_plan_def)
  have hdr: "resolve_comment_header ?inputs (example_plan ?rcs) = long_header"
    by (simp add: resolve_comment_header_def example_inputs_def)
  have len: "length (comment_body ?inputs long_header pc) = 66106"
    unfolding val
    by (simp add: comment_defs example_inputs_def length_long_header string_of_nat.simps digit_char_def
        render_defs acl_private_def acl_public_def)
  have ne: "ResouceChangeBody pc \<noteq> []"
    by (simp add: val)
  have "plan_comments ?inputs example_libraries [] [] = Inr []"
    by simp
  from too_large_comment_fails [OF this rc pc ne, of "[]"] show ?thesis
    by (simp add: hdr len string_of_nat.simps digit_char_def)
qed


end
